theory Spec2Isabelle
  imports
    Main
    "HOL-Library.Word"
    "HOL-Library.FSet"
    "HOL-Library.Char_ord"
    "HOL-Library.List_Lexorder"
begin

unbundle bit_operations_syntax

section \<open>JavaScript values and strings\<close>

text \<open>
  Values that \<^verbatim>\<open>JSON.parse\<close> can produce. An object is the list of its own
  properties in enumeration order (keys distinct). Numbers are the integers; a string is
  the list of its code units, here the 8-bit ones.
\<close>

datatype json =
    JNull
  | JBool bool
  | JNum int
  | JStr string
  | JArr "json list"
  | JObj "(string \<times> json) list"

definition digitChar :: "nat \<Rightarrow> char" where
  "digitChar d = ''0123456789abcdefghijklmnopqrstuvwxyz'' ! (d mod 36)"

text \<open>\<^verbatim>\<open>Number.prototype.toString(radix)\<close> on a non-negative integer.\<close>

function digitsOf :: "nat \<Rightarrow> nat \<Rightarrow> string" where
  "digitsOf b n =
     (if b < 2 \<or> n < b then [digitChar n]
      else digitsOf b (n div b) @ [digitChar (n mod b)])"
  by pat_completeness auto
termination
  by (relation "measure (\<lambda>(b, n). n)") auto

declare digitsOf.simps [simp del]

text \<open>
  \<^verbatim>\<open>String(n)\<close> for an integer \<open>n\<close> below \<^verbatim>\<open>1e21\<close> in absolute value, where
  JavaScript writes all the digits.
\<close>

definition numberToString :: "int \<Rightarrow> string" where
  "numberToString i =
     (if i < 0 then CHR ''-'' # digitsOf 10 (nat (- i)) else digitsOf 10 (nat i))"

text \<open>\<^verbatim>\<open>Array.prototype.join\<close> on strings.\<close>

fun join :: "string \<Rightarrow> string list \<Rightarrow> string" where
  "join sep [] = []"
| "join sep [x] = x"
| "join sep (x # y # ys) = x @ sep @ join sep (y # ys)"

definition hex2 :: "nat \<Rightarrow> string" where
  "hex2 n = [digitChar (n div 16), digitChar (n mod 16)]"

text \<open>The escapes of \<^verbatim>\<open>JSON.stringify\<close> on one code unit.\<close>

definition escapeChar :: "char \<Rightarrow> string" where
  "escapeChar c =
     (if c = CHR 0x22 then [CHR 0x5C, CHR 0x22]
      else if c = CHR 0x5C then [CHR 0x5C, CHR 0x5C]
      else if c = CHR 0x08 then [CHR 0x5C, CHR ''b'']
      else if c = CHR 0x0C then [CHR 0x5C, CHR ''f'']
      else if c = CHR 0x0A then [CHR 0x5C, CHR ''n'']
      else if c = CHR 0x0D then [CHR 0x5C, CHR ''r'']
      else if c = CHR 0x09 then [CHR 0x5C, CHR ''t'']
      else if (of_char c :: nat) < 32 then [CHR 0x5C, CHR ''u'', CHR ''0'', CHR ''0''] @ hex2 (of_char c)
      else [c])"

definition quoteJSONString :: "string \<Rightarrow> string" where
  "quoteJSONString s = CHR 0x22 # concat (map escapeChar s) @ [CHR 0x22]"

text \<open>
  \<^verbatim>\<open>JSON.stringify(value)\<close>: the properties of an object are written in
  their enumeration order.
\<close>

fun stringify :: "json \<Rightarrow> string"
  and stringifyElems :: "json list \<Rightarrow> string list"
  and stringifyProps :: "(string \<times> json) list \<Rightarrow> string list"
where
  "stringify JNull = ''null''"
| "stringify (JBool b) = (if b then ''true'' else ''false'')"
| "stringify (JNum n) = numberToString n"
| "stringify (JStr s) = quoteJSONString s"
| "stringify (JArr xs) = ''['' @ join '','' (stringifyElems xs) @ '']''"
| "stringify (JObj kvs) = ''{'' @ join '','' (stringifyProps kvs) @ ''}''"
| "stringifyElems [] = []"
| "stringifyElems (x # xs) = stringify x # stringifyElems xs"
| "stringifyProps [] = []"
| "stringifyProps (kv # kvs) =
     (quoteJSONString (fst kv) @ '':'' @ stringify (snd kv)) # stringifyProps kvs"

section \<open>Scouting entries\<close>

text \<open>
  The fields of \<^verbatim>\<open>ScoutingEntryBase\<close> that the synchronisation code reads.
  Optional fields are options; times are integer milliseconds. Imported rows are stored
  without a check and the code reads \<open>timestamp\<close> with \<^verbatim>\<open>|| 0\<close>, so a row may
  lack it: it is an option too. The other fields are present, as the type requires.
\<close>

record entry =
  entryId :: string
  eventKey :: string
  matchKey :: string
  matchNumber :: int
  teamNumber :: int
  allianceColor :: string
  gameData :: "(string \<times> json) list option"
  timestamp :: "int option"
  isCorrected :: "bool option"
  lastCorrectedAt :: "int option"

subsection \<open>Sorting with a comparator\<close>

text \<open>
  \<^verbatim>\<open>Array.prototype.sort(compare)\<close> is a stable sort: an element goes before
  the first later element that the comparator does not put before it.
\<close>

fun insertBy :: "('a \<Rightarrow> 'a \<Rightarrow> int) \<Rightarrow> 'a \<Rightarrow> 'a list \<Rightarrow> 'a list" where
  "insertBy cmp x [] = [x]"
| "insertBy cmp x (y # ys) = (if cmp x y \<le> 0 then x # y # ys else y # insertBy cmp x ys)"

definition arraySort :: "('a \<Rightarrow> 'a \<Rightarrow> int) \<Rightarrow> 'a list \<Rightarrow> 'a list" where
  "arraySort cmp xs = foldr (insertBy cmp) xs []"

text \<open>
  A comparison of strings by code units, one collation that \<^verbatim>\<open>localeCompare\<close>
  can stand for in an evaluation. The functions below take the collation as the
  parameter \<open>lc\<close>.
\<close>

definition codeUnitCompare :: "string \<Rightarrow> string \<Rightarrow> int" where
  "codeUnitCompare a b = (if a = b then 0 else if a < b then - 1 else 1)"

subsection \<open>The fingerprint\<close>

definition fnvStep :: "32 word \<Rightarrow> char \<Rightarrow> 32 word" where
  "fnvStep hash c = (hash XOR of_nat (of_char c)) * 16777619"

definition fnvHash :: "string \<Rightarrow> 32 word" where
  "fnvHash dataString = foldl fnvStep 2166136261 dataString"

definition dataStringOf :: "(string \<Rightarrow> string \<Rightarrow> int) \<Rightarrow> entry \<Rightarrow> string" where
  "dataStringOf lc e =
     (let sortedEntries =
            arraySort (\<lambda>a b. lc (fst a) (fst b))
              (case gameData e of None \<Rightarrow> [] | Some d \<Rightarrow> d)
      in join ''|'' (map (\<lambda>kv. fst kv @ '':'' @ stringify (snd kv)) sortedEntries))"

definition generateDataFingerprint :: "(string \<Rightarrow> string \<Rightarrow> int) \<Rightarrow> entry \<Rightarrow> string" where
  "generateDataFingerprint lc e = digitsOf 36 (unat (fnvHash (dataStringOf lc e)))"

section \<open>Deterministic identity\<close>

definition toLowerChar :: "char \<Rightarrow> char" where
  "toLowerChar c =
     (let n = (of_char c :: nat)
      in if (65 \<le> n \<and> n \<le> 90) \<or> (192 \<le> n \<and> n \<le> 222 \<and> n \<noteq> 215)
         then char_of (n + 32) else c)"

definition toLowerCase :: "string \<Rightarrow> string" where
  "toLowerCase s = map toLowerChar s"

definition isWhiteSpace :: "char \<Rightarrow> bool" where
  "isWhiteSpace c = ((of_char c :: nat) \<in> {9, 10, 11, 12, 13, 32, 160})"

definition trim :: "string \<Rightarrow> string" where
  "trim s = rev (dropWhile isWhiteSpace (rev (dropWhile isWhiteSpace s)))"

definition normalizeEventKey :: "string \<Rightarrow> string" where
  "normalizeEventKey k = trim (toLowerCase k)"

definition generateDeterministicEntryId :: "string \<Rightarrow> string \<Rightarrow> int \<Rightarrow> string \<Rightarrow> string" where
  "generateDeterministicEntryId ek mk tn ac =
     (let event = normalizeEventKey ek;
          match = trim (toLowerCase mk);
          team = trim (numberToString tn);
          alliance = trim (toLowerCase ac)
      in event @ ''::'' @ match @ ''::'' @ team @ ''::'' @ alliance)"

section \<open>Changed fields\<close>

text \<open>Writing a property: an existing key keeps its place, a new key goes last.\<close>

fun setProp :: "(string \<times> json) list \<Rightarrow> string \<Rightarrow> json \<Rightarrow> (string \<times> json) list" where
  "setProp [] k v = [(k, v)]"
| "setProp (p # ps) k v = (if fst p = k then (k, v) # ps else p # setProp ps k v)"

definition objectAssign :: "(string \<times> json) list \<Rightarrow> (string \<times> json) list \<Rightarrow> (string \<times> json) list" where
  "objectAssign target source = foldl (\<lambda>t kv. setProp t (fst kv) (snd kv)) target source"

definition fullKeyOf :: "string \<Rightarrow> string \<Rightarrow> string" where
  "fullKeyOf prefix key = (if prefix \<noteq> [] then prefix @ ''.'' @ key else key)"

text \<open>
  \<^verbatim>\<open>flattenObject\<close>: \<open>flattenLoop\<close> is its loop over the properties, with
  the object \<open>flattened\<close> built so far; \<open>flattenValue\<close> is the loop body.
\<close>

fun flattenLoop :: "(string \<times> json) list \<Rightarrow> string \<Rightarrow> (string \<times> json) list \<Rightarrow> (string \<times> json) list"
  and flattenValue :: "json \<Rightarrow> string \<Rightarrow> (string \<times> json) list \<Rightarrow> (string \<times> json) list"
where
  "flattenLoop [] prefix flattened = flattened"
| "flattenLoop (kv # rest) prefix flattened =
     flattenLoop rest prefix (flattenValue (snd kv) (fullKeyOf prefix (fst kv)) flattened)"
| "flattenValue (JObj obj) fullKey flattened = objectAssign flattened (flattenLoop obj fullKey [])"
| "flattenValue JNull fullKey flattened = setProp flattened fullKey JNull"
| "flattenValue (JBool b) fullKey flattened = setProp flattened fullKey (JBool b)"
| "flattenValue (JNum n) fullKey flattened = setProp flattened fullKey (JNum n)"
| "flattenValue (JStr s) fullKey flattened = setProp flattened fullKey (JStr s)"
| "flattenValue (JArr xs) fullKey flattened = setProp flattened fullKey (JArr xs)"

definition flattenObject :: "(string \<times> json) list \<Rightarrow> string \<Rightarrow> (string \<times> json) list" where
  "flattenObject obj prefix = flattenLoop obj prefix []"

record changedField =
  field :: string
  localValue :: json
  incomingValue :: json

text \<open>The elements of \<^verbatim>\<open>new Set(xs)\<close> in insertion order.\<close>

definition setOfArray :: "'a list \<Rightarrow> 'a list" where
  "setOfArray xs = rev (remdups (rev xs))"

definition isNullish :: "json option \<Rightarrow> bool" where
  "isNullish v = (v = None \<or> v = Some JNull)"

definition fieldChange ::
  "(string \<times> json) list \<Rightarrow> (string \<times> json) list \<Rightarrow> string \<Rightarrow> changedField list" where
  "fieldChange flattenedLocal flattenedIncoming f =
     (let lv = map_of flattenedLocal f; iv = map_of flattenedIncoming f
      in if isNullish iv then []
         else if isNullish lv then []
         else if stringify (the lv) \<noteq> stringify (the iv)
           then [\<lparr>field = f, localValue = the lv, incomingValue = the iv\<rparr>]
         else [])"

definition computeChangedFields :: "entry \<Rightarrow> entry \<Rightarrow> changedField list" where
  "computeChangedFields localEntry incomingEntry =
     (let localData = (case gameData localEntry of None \<Rightarrow> [] | Some d \<Rightarrow> d);
          incomingData = (case gameData incomingEntry of None \<Rightarrow> [] | Some d \<Rightarrow> d);
          flattenedLocal = flattenObject localData [];
          flattenedIncoming = flattenObject incomingData [];
          allFields = setOfArray (map fst flattenedLocal @ map fst flattenedIncoming)
      in concat (map (fieldChange flattenedLocal flattenedIncoming) allFields))"

section \<open>Conflict detection\<close>

datatype conflictType = CorrectedVsUncorrected | CorrectedVsCorrected

record conflictInfo =
  incoming :: entry
  local :: entry
  conflictType :: conflictType
  isNewerIncoming :: bool
  changedFields :: "changedField list"

record conflictDetectionResult =
  autoImport :: "entry list"
  autoReplace :: "entry list"
  batchReview :: "entry list"
  conflicts :: "conflictInfo list"

definition emptyResult :: conflictDetectionResult where
  "emptyResult = \<lparr>autoImport = [], autoReplace = [], batchReview = [], conflicts = []\<rparr>"

text \<open>
  \<^verbatim>\<open>new Map(pairs)\<close>: a later pair replaces an earlier one with the same key.
  The local table is the list of its rows as \<^verbatim>\<open>toArray()\<close> yields them.
\<close>

definition localEntriesById :: "entry list \<Rightarrow> string \<Rightarrow> entry option" where
  "localEntriesById allLocalEntries = map_of (rev (map (\<lambda>e. (entryId e, e)) allLocalEntries))"

definition fieldKeyOf :: "entry \<Rightarrow> string" where
  "fieldKeyOf e =
     generateDeterministicEntryId (eventKey e) (matchKey e) (teamNumber e) (allianceColor e)"

definition localEntriesByFields :: "entry list \<Rightarrow> string \<Rightarrow> entry option" where
  "localEntriesByFields allLocalEntries = map_of (rev (map (\<lambda>e. (fieldKeyOf e, e)) allLocalEntries))"

definition matchingLocalOf :: "entry list \<Rightarrow> entry \<Rightarrow> entry option" where
  "matchingLocalOf allLocalEntries incomingEntry =
     (case localEntriesById allLocalEntries (entryId incomingEntry) of
        Some l \<Rightarrow> Some l
      | None \<Rightarrow> localEntriesByFields allLocalEntries (fieldKeyOf incomingEntry))"

text \<open>
  \<^verbatim>\<open>a || b\<close> on an optional number \<open>a\<close>: absent and 0 are falsy. In \<open>jsOr\<close> the
  operand \<open>b\<close> is a number, in \<open>jsOrOpt\<close> it may be absent as well, and so may the
  result.
\<close>

definition jsOr :: "int option \<Rightarrow> int \<Rightarrow> int" where
  "jsOr a b = (case a of None \<Rightarrow> b | Some t \<Rightarrow> if t = 0 then b else t)"

definition jsOrOpt :: "int option \<Rightarrow> int option \<Rightarrow> int option" where
  "jsOrOpt a b = (case a of None \<Rightarrow> b | Some t \<Rightarrow> if t = 0 then b else Some t)"

text \<open>\<^verbatim>\<open>Number(e.lastCorrectedAt || e.timestamp || 0)\<close>.\<close>

definition correctionTime :: "entry \<Rightarrow> int" where
  "correctionTime e = jsOr (jsOrOpt (lastCorrectedAt e) (timestamp e)) 0"

text \<open>
  \<^verbatim>\<open>e.lastCorrectedAt || e.timestamp\<close>, without the \<^verbatim>\<open>|| 0\<close>: the value is
  \<^verbatim>\<open>undefined\<close> when the entry has neither. A difference with \<^verbatim>\<open>undefined\<close> is
  \<^verbatim>\<open>NaN\<close>, and every comparison with \<^verbatim>\<open>NaN\<close> or \<^verbatim>\<open>undefined\<close> is false.
\<close>

definition rawCorrectionTime :: "entry \<Rightarrow> int option" where
  "rawCorrectionTime e = jsOrOpt (lastCorrectedAt e) (timestamp e)"

definition withinTolerance :: "int option \<Rightarrow> int \<Rightarrow> bool" where
  "withinTolerance a b = (case a of None \<Rightarrow> False | Some t \<Rightarrow> \<bar>t - b\<bar> \<le> 1000)"

definition isLaterThan :: "int \<Rightarrow> int option \<Rightarrow> bool" where
  "isLaterThan b a = (case a of None \<Rightarrow> False | Some t \<Rightarrow> b > t)"

definition flagOf :: "bool option \<Rightarrow> bool" where
  "flagOf b = (case b of None \<Rightarrow> False | Some v \<Rightarrow> v)"

text \<open>The body of the loop of \<^verbatim>\<open>detectConflicts\<close> for one incoming entry.\<close>

definition classifyEntry ::
  "(string \<Rightarrow> string \<Rightarrow> int) \<Rightarrow> entry list \<Rightarrow> entry \<Rightarrow> conflictDetectionResult \<Rightarrow> conflictDetectionResult" where
  "classifyEntry lc allLocalEntries incomingEntry r =
     (case matchingLocalOf allLocalEntries incomingEntry of
        None \<Rightarrow> r\<lparr>autoImport := autoImport r @ [incomingEntry]\<rparr>
      | Some matchingLocal \<Rightarrow>
         (let localIsCorrected = flagOf (isCorrected matchingLocal);
              incomingIsCorrected = flagOf (isCorrected incomingEntry);
              localFingerprint = generateDataFingerprint lc matchingLocal;
              incomingFingerprint = generateDataFingerprint lc incomingEntry
          in if (if localIsCorrected \<and> incomingIsCorrected
                 then localFingerprint = incomingFingerprint
                      \<and> \<bar>correctionTime matchingLocal - correctionTime incomingEntry\<bar> \<le> 1000
                 else localFingerprint = incomingFingerprint
                      \<and> localIsCorrected = incomingIsCorrected)
             then r
             else if \<not> localIsCorrected \<and> \<not> incomingIsCorrected
               then r\<lparr>batchReview := batchReview r @ [incomingEntry]\<rparr>
             else if \<not> localIsCorrected \<and> incomingIsCorrected
               then r\<lparr>autoReplace := autoReplace r @ [incomingEntry]\<rparr>
             else if localIsCorrected \<and> \<not> incomingIsCorrected
               then r\<lparr>conflicts := conflicts r @
                      [\<lparr>incoming = incomingEntry, local = matchingLocal,
                        conflictType = CorrectedVsUncorrected, isNewerIncoming = False,
                        changedFields = computeChangedFields matchingLocal incomingEntry\<rparr>]\<rparr>
             else if localIsCorrected \<and> incomingIsCorrected
               then (let localCorrectionTime = rawCorrectionTime matchingLocal;
                         incomingCorrectionTime = correctionTime incomingEntry
                     in if withinTolerance localCorrectionTime incomingCorrectionTime
                        then r\<lparr>autoReplace := autoReplace r @ [incomingEntry]\<rparr>
                        else r\<lparr>conflicts := conflicts r @
                               [\<lparr>incoming = incomingEntry, local = matchingLocal,
                                 conflictType = CorrectedVsCorrected,
                                 isNewerIncoming = isLaterThan incomingCorrectionTime localCorrectionTime,
                                 changedFields = computeChangedFields matchingLocal incomingEntry\<rparr>]\<rparr>)
             else r))"

definition detectConflicts ::
  "(string \<Rightarrow> string \<Rightarrow> int) \<Rightarrow> entry list \<Rightarrow> entry list \<Rightarrow> conflictDetectionResult" where
  "detectConflicts lc allLocalEntries incomingData =
     foldl (\<lambda>r e. classifyEntry lc allLocalEntries e r) emptyResult incomingData"

section \<open>Signaling relay\<close>

datatype messageType = Offer | Answer | IceCandidate | Join | Leave | Ping

datatype peerRole = Lead | Scout

text \<open>
  A \<^verbatim>\<open>SignalingMessage\<close>; every field but the type is optional. \<open>deliveredTo\<close>
  is the set of the peers that have received the message.
\<close>

record signalingMessage =
  messageType :: messageType
  roomId :: "string option"
  peerId :: "string option"
  peerName :: "string option"
  role :: "peerRole option"
  targetPeerId :: "string option"
  data :: "json option"
  deliveredTo :: "string fset option"

record peer =
  peer_id :: string
  peer_name :: string
  lastSeen :: int

record room =
  room_id :: string
  lead :: "peer option"
  scouts :: "(string \<times> peer) list"
  messages :: "signalingMessage list"
  createdAt :: int

text \<open>\<^verbatim>\<open>Map.prototype.set\<close> and \<^verbatim>\<open>delete\<close> on a map kept in insertion order.\<close>

fun mapSet :: "('k \<times> 'v) list \<Rightarrow> 'k \<Rightarrow> 'v \<Rightarrow> ('k \<times> 'v) list" where
  "mapSet [] k v = [(k, v)]"
| "mapSet (p # ps) k v = (if fst p = k then (k, v) # ps else p # mapSet ps k v)"

definition mapDelete :: "('k \<times> 'v) list \<Rightarrow> 'k \<Rightarrow> ('k \<times> 'v) list" where
  "mapDelete m k = filter (\<lambda>p. fst p \<noteq> k) m"

text \<open>A string is truthy when it is present and not empty.\<close>

definition truthy :: "string option \<Rightarrow> bool" where
  "truthy s = (case s of None \<Rightarrow> False | Some t \<Rightarrow> t \<noteq> [])"

definition orDefault :: "string option \<Rightarrow> string \<Rightarrow> string" where
  "orDefault s d = (case s of None \<Rightarrow> d | Some t \<Rightarrow> if t = [] then d else t)"

datatype responseBody =
    PlainBody string
  | ErrorBody string
  | PongBody
  | PostBody string bool nat
  | PollBody "signalingMessage list" string bool nat "(string \<times> string) list"

record response =
  statusCode :: nat
  body :: responseBody

text \<open>
  A request after \<^verbatim>\<open>JSON.parse\<close> of the body and the reading of the query
  parameters: \<open>Post None\<close> is a body that is not JSON.
\<close>

datatype request =
    Options
  | Post "signalingMessage option"
  | Get "string option" "string option"
  | OtherMethod

definition startsWith :: "string \<Rightarrow> string \<Rightarrow> bool" where
  "startsWith s p = (take (length p) s = p)"

text \<open>The message as it is stored: \<^verbatim>\<open>{ ...message, data, deliveredTo: new Set() }\<close>.\<close>

definition storedMessage :: "signalingMessage \<Rightarrow> signalingMessage" where
  "storedMessage message = message\<lparr>data := data message, deliveredTo := Some {||}\<rparr>"

definition pushMessage :: "room \<Rightarrow> signalingMessage \<Rightarrow> room" where
  "pushMessage r message = r\<lparr>messages := messages r @ [storedMessage message]\<rparr>"

text \<open>The \<^verbatim>\<open>switch\<close> on the type of a posted message.\<close>

definition handleMessage :: "int \<Rightarrow> string \<Rightarrow> signalingMessage \<Rightarrow> room \<Rightarrow> room" where
  "handleMessage now pid message r =
     (case messageType message of
        Join \<Rightarrow>
          pushMessage
            (if role message = Some Lead
               then r\<lparr>lead := Some \<lparr>peer_id = pid, peer_name = orDefault (peerName message) ''Lead'',
                                    lastSeen = now\<rparr>\<rparr>
             else if role message = Some Scout
               then r\<lparr>scouts := mapSet (scouts r) pid
                        \<lparr>peer_id = pid, peer_name = orDefault (peerName message) ''Scout'',
                         lastSeen = now\<rparr>\<rparr>
             else r)
            message
      | Leave \<Rightarrow>
          (if role message = Some Lead then r\<lparr>lead := None\<rparr>
           else r\<lparr>scouts := mapDelete (scouts r) pid\<rparr>)
      | Offer \<Rightarrow> pushMessage r message
      | Answer \<Rightarrow> pushMessage r message
      | IceCandidate \<Rightarrow> pushMessage r message
      | Ping \<Rightarrow> r)"

definition roomOrNew :: "(string \<rightharpoonup> room) \<Rightarrow> int \<Rightarrow> string \<Rightarrow> room" where
  "roomOrNew rooms now rid =
     (case rooms rid of
        Some r \<Rightarrow> r
      | None \<Rightarrow> \<lparr>room_id = rid, lead = None, scouts = [], messages = [], createdAt = now\<rparr>)"

definition handlePost ::
  "int \<Rightarrow> signalingMessage option \<Rightarrow> (string \<rightharpoonup> room) \<Rightarrow> response \<times> (string \<rightharpoonup> room)" where
  "handlePost now parsed rooms =
     (case parsed of
        None \<Rightarrow> (\<lparr>statusCode = 400, body = ErrorBody ''Invalid JSON''\<rparr>, rooms)
      | Some message \<Rightarrow>
          if messageType message = Ping then (\<lparr>statusCode = 200, body = PongBody\<rparr>, rooms)
          else if \<not> truthy (roomId message) \<or> \<not> truthy (peerId message)
            then (\<lparr>statusCode = 400, body = ErrorBody ''Missing roomId or peerId''\<rparr>, rooms)
          else
            (let rid = the (roomId message);
                 pid = the (peerId message);
                 r = handleMessage now pid message (roomOrNew rooms now rid)
             in (\<lparr>statusCode = 200,
                  body = PostBody (room_id r) (lead r \<noteq> None) (length (scouts r))\<rparr>,
                 rooms(rid \<mapsto> r))))"

text \<open>The filter of a poll by the peer \<open>p\<close>.\<close>

definition alreadyDelivered :: "string \<Rightarrow> signalingMessage \<Rightarrow> bool" where
  "alreadyDelivered p msg = (case deliveredTo msg of None \<Rightarrow> False | Some d \<Rightarrow> p |\<in>| d)"

definition shouldInclude :: "string \<Rightarrow> signalingMessage \<Rightarrow> bool" where
  "shouldInclude p msg =
     (let isOwnMessage = (peerId msg = Some p);
          isTargetedToSomeoneElse = (truthy (targetPeerId msg) \<and> targetPeerId msg \<noteq> Some p)
      in \<not> isOwnMessage \<and> \<not> alreadyDelivered p msg \<and> \<not> isTargetedToSomeoneElse)"

definition markDelivered :: "string \<Rightarrow> signalingMessage \<Rightarrow> signalingMessage" where
  "markDelivered p msg =
     msg\<lparr>deliveredTo := Some (finsert p (case deliveredTo msg of None \<Rightarrow> {||} | Some d \<Rightarrow> d))\<rparr>"

text \<open>The filter of the clean-up after a poll: the messages that stay in the queue.\<close>

definition shouldKeep :: "room \<Rightarrow> signalingMessage \<Rightarrow> bool" where
  "shouldKeep r msg =
     (case deliveredTo msg of
        None \<Rightarrow> True
      | Some d \<Rightarrow>
          if messageType msg = Join \<and> role msg = Some Scout
            then (case lead r of None \<Rightarrow> True | Some l \<Rightarrow> \<not> peer_id l |\<in>| d)
          else if messageType msg = Join \<and> role msg = Some Lead
            then list_ex (\<lambda>scoutId. \<not> scoutId |\<in>| d) (map fst (scouts r))
          else fcard d \<le> 1)"

definition handleGet ::
  "string option \<Rightarrow> string option \<Rightarrow> (string \<rightharpoonup> room) \<Rightarrow> response \<times> (string \<rightharpoonup> room)" where
  "handleGet rq pq rooms =
     (if \<not> truthy rq \<or> \<not> truthy pq
        then (\<lparr>statusCode = 400, body = ErrorBody ''Missing roomId or peerId''\<rparr>, rooms)
      else
        (let rid = the rq; p = the pq
         in case rooms rid of
              None \<Rightarrow> (\<lparr>statusCode = 200, body = PollBody [] rid False 0 []\<rparr>, rooms)
            | Some r \<Rightarrow>
                (let returned = map (markDelivered p) (filter (shouldInclude p) (messages r));
                     marked = map (\<lambda>msg. if shouldInclude p msg then markDelivered p msg else msg)
                                (messages r);
                     r' = r\<lparr>messages := filter (shouldKeep r) marked\<rparr>
                 in (\<lparr>statusCode = 200,
                      body = PollBody returned (room_id r') (lead r' \<noteq> None) (length (scouts r'))
                               (map (\<lambda>s. (peer_id (snd s), peer_name (snd s))) (scouts r'))\<rparr>,
                     rooms(rid \<mapsto> r')))))"

definition handler ::
  "int \<Rightarrow> string \<Rightarrow> request \<Rightarrow> (string \<rightharpoonup> room) \<Rightarrow> response \<times> (string \<rightharpoonup> room)" where
  "handler now path req rooms =
     (if \<not> startsWith path ''/.netlify/functions/webrtc-signal''
        then (\<lparr>statusCode = 404, body = PlainBody ''Not found''\<rparr>, rooms)
      else case req of
             Options \<Rightarrow> (\<lparr>statusCode = 200, body = PlainBody []\<rparr>, rooms)
           | Post parsed \<Rightarrow> handlePost now parsed rooms
           | Get rq pq \<Rightarrow> handleGet rq pq rooms
           | OtherMethod \<Rightarrow> (\<lparr>statusCode = 405, body = ErrorBody ''Method not allowed''\<rparr>, rooms))"

text \<open>The messages of a poll response, and the queue of a room.\<close>

definition polledMessages :: "response \<Rightarrow> signalingMessage list" where
  "polledMessages resp = (case body resp of PollBody ms _ _ _ _ \<Rightarrow> ms | _ \<Rightarrow> [])"

definition queueOf :: "(string \<rightharpoonup> room) \<Rightarrow> string \<Rightarrow> signalingMessage list" where
  "queueOf rooms rid = (case rooms rid of None \<Rightarrow> [] | Some r \<Rightarrow> messages r)"


section \<open>The local table and the toasts\<close>

text \<open>
  The table \<^verbatim>\<open>db.scoutingData\<close> is the list of its rows in the order of the primary
  key \<open>id\<close>, which is the order \<^verbatim>\<open>toArray()\<close> yields. \<^verbatim>\<open>put\<close> replaces the row
  with the same key; the operations do not fail in this model.
\<close>

definition dbDelete :: "string \<Rightarrow> entry list \<Rightarrow> entry list" where
  "dbDelete k rows = filter (\<lambda>x. entryId x \<noteq> k) rows"

definition dbPut :: "entry \<Rightarrow> entry list \<Rightarrow> entry list" where
  "dbPut e rows = insort_key entryId e (dbDelete (entryId e) rows)"

definition dbBulkPut :: "entry list \<Rightarrow> entry list \<Rightarrow> entry list" where
  "dbBulkPut es rows = foldl (\<lambda>rs e. dbPut e rs) rows es"

datatype toast = ToastError string | ToastSuccess string

section \<open>Conflict resolution workflow\<close>

datatype resolution = Replace | Skip

record historyEntry =
  index :: nat
  action :: resolution

text \<open>The state of the hook \<^verbatim>\<open>useConflictResolution\<close>.\<close>

record hookState =
  showConflictDialog :: bool
  currentConflicts :: "conflictInfo list"
  currentConflictIndex :: nat
  conflictResolutions :: "string \<rightharpoonup> resolution"
  resolutionHistory :: "historyEntry list"
  isProcessing :: bool

text \<open>The hook state together with the table and the toasts shown so far.\<close>

record world =
  hook :: hookState
  table :: "entry list"
  toasts :: "toast list"

definition getConflictKey :: "conflictInfo \<Rightarrow> string" where
  "getConflictKey conflict =
     numberToString (matchNumber (local conflict)) @ ''-''
       @ numberToString (teamNumber (local conflict)) @ ''-'' @ eventKey (local conflict)"

text \<open>
  One round of the loop of \<^verbatim>\<open>applyConflictResolutions\<close>: the table and the counts
  of replaced and kept entries.
\<close>

definition applyDecision ::
  "(string \<rightharpoonup> resolution) \<Rightarrow> entry list \<times> nat \<times> nat \<Rightarrow> conflictInfo \<Rightarrow> entry list \<times> nat \<times> nat" where
  "applyDecision resolutions acc conflict =
     (case acc of (rows, replaced, kept) \<Rightarrow>
        (case resolutions (getConflictKey conflict) of
           Some Replace \<Rightarrow>
             (dbPut (incoming conflict) (dbDelete (entryId (local conflict)) rows), replaced + 1, kept)
         | Some Skip \<Rightarrow> (rows, replaced, kept + 1)
         | None \<Rightarrow> (rows, replaced, kept)))"

definition applyConflictResolutions :: "(string \<rightharpoonup> resolution) option \<Rightarrow> world \<Rightarrow> world" where
  "applyConflictResolutions resolutionsMap w =
     (let resolutions = (case resolutionsMap of Some m \<Rightarrow> m | None \<Rightarrow> conflictResolutions (hook w));
          done = foldl (applyDecision resolutions) (table w, 0, 0) (currentConflicts (hook w))
      in case done of (rows, replaced, kept) \<Rightarrow>
           w\<lparr>table := rows,
             toasts := toasts w @
               [ToastSuccess (''Conflict resolution complete! '' @ numberToString (int replaced)
                  @ '' entries replaced, '' @ numberToString (int kept) @ '' entries kept.'')],
             hook := (hook w)\<lparr>showConflictDialog := False, currentConflicts := [],
                       currentConflictIndex := 0, conflictResolutions := Map.empty,
                       resolutionHistory := []\<rparr>\<rparr>)"

definition handleConflictResolution :: "resolution \<Rightarrow> world \<Rightarrow> world" where
  "handleConflictResolution act w =
     (let h = hook w; i = currentConflictIndex h
      in if \<not> i < length (currentConflicts h) then w
         else
           (let conflictKey = getConflictKey (currentConflicts h ! i);
                updatedResolutions = (conflictResolutions h)(conflictKey \<mapsto> act);
                h1 = h\<lparr>conflictResolutions := updatedResolutions,
                       resolutionHistory := resolutionHistory h @ [\<lparr>index = i, action = act\<rparr>]\<rparr>
            in if int i < int (length (currentConflicts h)) - 1
               then w\<lparr>hook := h1\<lparr>currentConflictIndex := i + 1\<rparr>\<rparr>
               else applyConflictResolutions (Some updatedResolutions) (w\<lparr>hook := h1\<rparr>)))"

definition handleUndo :: "world \<Rightarrow> world" where
  "handleUndo w =
     (let h = hook w
      in if resolutionHistory h = [] then w
         else
           (let lastResolution = last (resolutionHistory h)
            in if \<not> index lastResolution < length (currentConflicts h) then w
               else
                 (let conflictKey = getConflictKey (currentConflicts h ! index lastResolution)
                  in w\<lparr>hook := h\<lparr>conflictResolutions := (conflictResolutions h)(conflictKey := None),
                                 resolutionHistory := butlast (resolutionHistory h),
                                 currentConflictIndex := index lastResolution\<rparr>\<rparr>)))"

text \<open>
  A resolution session starts from the hook in its initial state, given the conflicts to
  walk through. Its steps are decisions and undos, taken one after the other.
\<close>

definition startSession :: "conflictInfo list \<Rightarrow> entry list \<Rightarrow> world" where
  "startSession cs rows =
     \<lparr>hook = \<lparr>showConflictDialog = True, currentConflicts = cs, currentConflictIndex = 0,
              conflictResolutions = Map.empty, resolutionHistory = [], isProcessing = False\<rparr>,
      table = rows, toasts = []\<rparr>"

datatype sessionStep = Decide resolution | Undo

fun step :: "sessionStep \<Rightarrow> world \<Rightarrow> world" where
  "step (Decide act) w = handleConflictResolution act w"
| "step Undo w = handleUndo w"

definition run :: "sessionStep list \<Rightarrow> world \<Rightarrow> world" where
  "run steps w = foldl (\<lambda>v s. step s v) w steps"

text \<open>
  What holds of the hook throughout a session: the history lists the steps
  \<open>0, 1, ...\<close> up to the current index, the current index points into the conflicts
  (or is 0), and only conflicts before the current index have a decision.
\<close>

definition sessionInv :: "hookState \<Rightarrow> bool" where
  "sessionInv h \<longleftrightarrow>
     map index (resolutionHistory h) = [0..<currentConflictIndex h]
     \<and> (currentConflictIndex h = 0 \<or> currentConflictIndex h < length (currentConflicts h))
     \<and> dom (conflictResolutions h)
         \<subseteq> (\<lambda>i. getConflictKey (currentConflicts h ! i)) ` {..<currentConflictIndex h}"

section \<open>Upload and merge\<close>

datatype uploadMode = Append | Overwrite | SmartMerge

record uploadResult =
  hasConflicts :: bool
  hasBatchReview :: "bool option"
  batchReviewEntries :: "entry list option"
  pendingConflicts :: "conflictInfo list option"
  autoProcessed :: "(nat \<times> nat) option"

definition plainResult :: uploadResult where
  "plainResult =
     \<lparr>hasConflicts = False, hasBatchReview = None, batchReviewEntries = None,
      pendingConflicts = None, autoProcessed = None\<rparr>"

text \<open>
  The check of the shape of the input: an object that is not \<^verbatim>\<open>null\<close>, with a
  property \<open>entries\<close> that is an array. The result is that array.
\<close>

definition entriesOf :: "json \<Rightarrow> json list option" where
  "entriesOf jsonData =
     (case jsonData of
        JObj props \<Rightarrow> (case map_of props ''entries'' of Some (JArr es) \<Rightarrow> Some es | _ \<Rightarrow> None)
      | _ \<Rightarrow> None)"

text \<open>
  The elements of \<open>entries\<close> are used as \<^verbatim>\<open>ScoutingEntryBase\<close> without a check.
  Here the fields are read from the object. An optional field, or the timestamp, that is
  absent or of another type reads as no value; the fields that the type requires are
  taken to be there, and read as the empty string or 0 otherwise.
\<close>

definition stringField :: "(string \<times> json) list \<Rightarrow> string \<Rightarrow> string" where
  "stringField props k = (case map_of props k of Some (JStr s) \<Rightarrow> s | _ \<Rightarrow> [])"

definition numberField :: "(string \<times> json) list \<Rightarrow> string \<Rightarrow> int option" where
  "numberField props k = (case map_of props k of Some (JNum n) \<Rightarrow> Some n | _ \<Rightarrow> None)"

definition asEntry :: "json \<Rightarrow> entry" where
  "asEntry j =
     (let props = (case j of JObj ps \<Rightarrow> ps | _ \<Rightarrow> [])
      in \<lparr>entryId = stringField props ''id'',
          eventKey = stringField props ''eventKey'',
          matchKey = stringField props ''matchKey'',
          matchNumber = (case numberField props ''matchNumber'' of Some n \<Rightarrow> n | None \<Rightarrow> 0),
          teamNumber = (case numberField props ''teamNumber'' of Some n \<Rightarrow> n | None \<Rightarrow> 0),
          allianceColor = stringField props ''allianceColor'',
          gameData = (case map_of props ''gameData'' of Some (JObj d) \<Rightarrow> Some d | _ \<Rightarrow> None),
          timestamp = numberField props ''timestamp'',
          isCorrected = (case map_of props ''isCorrected'' of Some (JBool b) \<Rightarrow> Some b | _ \<Rightarrow> None),
          lastCorrectedAt = numberField props ''lastCorrectedAt''\<rparr>)"

text \<open>The replacement of one entry of \<open>autoReplace\<close> in smart-merge mode.\<close>

definition sameLogicalRecord :: "entry \<Rightarrow> entry \<Rightarrow> bool" where
  "sameLogicalRecord x y \<longleftrightarrow>
     matchNumber x = matchNumber y \<and> teamNumber x = teamNumber y
     \<and> allianceColor x = allianceColor y \<and> eventKey x = eventKey y"

definition replaceExisting :: "entry list \<Rightarrow> entry \<Rightarrow> entry list" where
  "replaceExisting rows e =
     (case find (\<lambda>x. sameLogicalRecord x e) rows of
        Some existing \<Rightarrow> dbPut e (dbDelete (entryId existing) rows)
      | None \<Rightarrow> dbPut e rows)"

definition countText :: "nat \<Rightarrow> string" where
  "countText n = numberToString (int n)"

definition smartMerge ::
  "(string \<Rightarrow> string \<Rightarrow> int) \<Rightarrow> entry list \<Rightarrow> entry list \<Rightarrow> uploadResult \<times> toast list \<times> entry list" where
  "smartMerge lc newEntries rows =
     (let conflictResult = detectConflicts lc rows newEntries;
          added = length (autoImport conflictResult);
          rows1 = (if autoImport conflictResult \<noteq> [] then dbBulkPut (autoImport conflictResult) rows
                   else rows);
          rows2 = foldl replaceExisting rows1 (autoReplace conflictResult);
          replaced = length (autoReplace conflictResult)
      in if conflicts conflictResult \<noteq> [] \<or> batchReview conflictResult \<noteq> [] then
           (let shown =
                  (if added > 0 \<or> replaced > 0 then
                     [ToastSuccess
                        (''Imported '' @ countText added @ '' new entries, ''
                         @ ''Replaced '' @ countText replaced @ '' existing entries.''
                         @ (if batchReview conflictResult \<noteq> []
                            then '' '' @ countText (length (batchReview conflictResult))
                                   @ '' duplicates need review.''
                            else [])
                         @ (if conflicts conflictResult \<noteq> []
                            then '' '' @ countText (length (conflicts conflictResult))
                                   @ '' conflicts need review.''
                            else []))]
                   else [])
            in if batchReview conflictResult \<noteq> [] then
                 (\<lparr>hasConflicts = False, hasBatchReview = Some True,
                   batchReviewEntries = Some (batchReview conflictResult),
                   pendingConflicts =
                     (if conflicts conflictResult \<noteq> [] then Some (conflicts conflictResult) else None),
                   autoProcessed = Some (added, replaced)\<rparr>, shown, rows2)
               else
                 (\<lparr>hasConflicts = True, hasBatchReview = None, batchReviewEntries = None,
                   pendingConflicts = Some (conflicts conflictResult),
                   autoProcessed = Some (added, replaced)\<rparr>, shown, rows2))
         else
           (\<lparr>hasConflicts = False, hasBatchReview = None, batchReviewEntries = None,
             pendingConflicts = None, autoProcessed = Some (added, replaced)\<rparr>,
            [ToastSuccess
               (''Smart merge complete! '' @ countText added @ '' new entries added, ''
                @ countText replaced @ '' entries replaced (Total: '' @ countText (length rows2)
                @ '')'')],
            rows2))"

text \<open>
  \<^verbatim>\<open>handleScoutingDataUpload\<close>: the result, the toasts it shows, and the table
  afterwards.
\<close>

definition handleScoutingDataUpload ::
  "(string \<Rightarrow> string \<Rightarrow> int) \<Rightarrow> json \<Rightarrow> uploadMode \<Rightarrow> entry list
     \<Rightarrow> uploadResult \<times> toast list \<times> entry list" where
  "handleScoutingDataUpload lc jsonData mode rows =
     (case entriesOf jsonData of
        None \<Rightarrow>
          (plainResult,
           [ToastError ''Invalid scouting data format. Expected { entries: ScoutingEntryBase[] }''],
           rows)
      | Some es \<Rightarrow>
          (let newEntries = map asEntry es
           in if length newEntries = 0
                then (plainResult, [ToastError ''No valid scouting data found''], rows)
              else
                (case mode of
                   Overwrite \<Rightarrow>
                     (plainResult,
                      [ToastSuccess (''Overwritten with '' @ countText (length newEntries)
                         @ '' scouting entries'')],
                      dbBulkPut newEntries rows)
                 | Append \<Rightarrow>
                     (let combined = rows @ newEntries
                      in (plainResult,
                          [ToastSuccess (''Uploaded '' @ countText (length newEntries) @ '' entries (''
                             @ countText (length rows) @ '' existing). Total: ''
                             @ countText (length combined) @ '' before deduplication.'')],
                          dbBulkPut combined rows))
                 | SmartMerge \<Rightarrow> smartMerge lc newEntries rows)))"

section \<open>Example data\<close>

text \<open>
  The scenario of the specification: a corrected local entry, and an incoming entry of
  the same logical record captured on another device under another id.
\<close>

definition sampleLocal :: entry where
  "sampleLocal =
     \<lparr>entryId = ''e::qm1::100::red'', eventKey = ''e'', matchKey = ''qm1'', matchNumber = 1,
      teamNumber = 100, allianceColor = ''red'', gameData = Some [(''score'', JNum 10)],
      timestamp = Some 500, isCorrected = Some True, lastCorrectedAt = Some 1000\<rparr>"

definition sampleIncoming :: entry where
  "sampleIncoming =
     \<lparr>entryId = ''scout-7'', eventKey = ''E'', matchKey = '' QM1 '', matchNumber = 1,
      teamNumber = 100, allianceColor = ''RED'', gameData = Some [(''score'', JNum 12)],
      timestamp = Some 700, isCorrected = None, lastCorrectedAt = None\<rparr>"

definition sampleCorrection :: "int \<Rightarrow> entry" where
  "sampleCorrection t = sampleIncoming\<lparr>isCorrected := Some True, lastCorrectedAt := Some t\<rparr>"

definition sampleSameCorrection :: "int \<Rightarrow> entry" where
  "sampleSameCorrection t = sampleLocal\<lparr>entryId := ''scout-7'', lastCorrectedAt := Some t\<rparr>"

text \<open>A corrected local row that has neither \<open>lastCorrectedAt\<close> nor \<open>timestamp\<close>.\<close>

definition sampleUntimedLocal :: entry where
  "sampleUntimedLocal = sampleLocal\<lparr>timestamp := None, lastCorrectedAt := None\<rparr>"

definition sampleUncorrectedLocal :: entry where
  "sampleUncorrectedLocal = sampleLocal\<lparr>isCorrected := None, lastCorrectedAt := None\<rparr>"

definition sampleDuplicate :: entry where
  "sampleDuplicate = sampleUncorrectedLocal\<lparr>entryId := ''scout-9''\<rparr>"

definition sampleBareLocal :: entry where
  "sampleBareLocal = sampleUncorrectedLocal\<lparr>gameData := None\<rparr>"

definition sampleBareIncoming :: entry where
  "sampleBareIncoming = sampleIncoming\<lparr>gameData := Some []\<rparr>"

text \<open>A room with one queued offer from peer A for peer B.\<close>

definition signalPath :: string where
  "signalPath = ''/.netlify/functions/webrtc-signal''"

definition offerAB :: signalingMessage where
  "offerAB =
     \<lparr>messageType = Offer, roomId = Some ''r1'', peerId = Some ''A'', peerName = Some ''Ann'',
      role = Some Lead, targetPeerId = Some ''B'', data = None, deliveredTo = None\<rparr>"

definition roomsWith :: "signalingMessage \<Rightarrow> (string \<rightharpoonup> room)" where
  "roomsWith m = snd (handler 5 signalPath (Post (Some m)) Map.empty)"

text \<open>The conflict between the two entries above, as the classifier reports it.\<close>

definition sampleConflict :: conflictInfo where
  "sampleConflict =
     \<lparr>incoming = sampleIncoming, local = sampleLocal, conflictType = CorrectedVsUncorrected,
      isNewerIncoming = False, changedFields = computeChangedFields sampleLocal sampleIncoming\<rparr>"

section \<open>Properties of the classifier\<close>

lemma correctionTime_raw:
  "rawCorrectionTime e = Some t \<Longrightarrow> correctionTime e = t"
  "rawCorrectionTime e = None \<Longrightarrow> correctionTime e = 0"
  by (simp_all add: correctionTime_def rawCorrectionTime_def jsOr_def)

lemma emptyResult_fields:
  "autoImport emptyResult = []" "autoReplace emptyResult = []"
  "batchReview emptyResult = []" "conflicts emptyResult = []"
  by (simp_all add: emptyResult_def)

lemma classifyEntry_unmatched:
  "matchingLocalOf st e = None \<Longrightarrow> classifyEntry lc st e r = r\<lparr>autoImport := autoImport r @ [e]\<rparr>"
  by (simp add: classifyEntry_def)

lemma classifyEntry_uncorrected_pair:
  assumes "matchingLocalOf st e = Some l" "\<not> flagOf (isCorrected l)" "\<not> flagOf (isCorrected e)"
  shows "classifyEntry lc st e r =
           (if generateDataFingerprint lc l = generateDataFingerprint lc e then r
            else r\<lparr>batchReview := batchReview r @ [e]\<rparr>)"
  using assms by (simp add: classifyEntry_def)

lemma classifyEntry_incoming_corrected:
  assumes "matchingLocalOf st e = Some l" "\<not> flagOf (isCorrected l)" "flagOf (isCorrected e)"
  shows "classifyEntry lc st e r = r\<lparr>autoReplace := autoReplace r @ [e]\<rparr>"
  using assms by (simp add: classifyEntry_def)

lemma classifyEntry_local_corrected:
  assumes "matchingLocalOf st e = Some l" "flagOf (isCorrected l)" "\<not> flagOf (isCorrected e)"
  shows "classifyEntry lc st e r =
           r\<lparr>conflicts := conflicts r @
              [\<lparr>incoming = e, local = l, conflictType = CorrectedVsUncorrected,
                isNewerIncoming = False, changedFields = computeChangedFields l e\<rparr>]\<rparr>"
  using assms by (simp add: classifyEntry_def)

lemma classifyEntry_corrected_pair:
  assumes "matchingLocalOf st e = Some l" "flagOf (isCorrected l)" "flagOf (isCorrected e)"
  shows "classifyEntry lc st e r =
           (if generateDataFingerprint lc l = generateDataFingerprint lc e
               \<and> \<bar>correctionTime l - correctionTime e\<bar> \<le> 1000
            then r
            else if withinTolerance (rawCorrectionTime l) (correctionTime e)
              then r\<lparr>autoReplace := autoReplace r @ [e]\<rparr>
            else r\<lparr>conflicts := conflicts r @
                   [\<lparr>incoming = e, local = l, conflictType = CorrectedVsCorrected,
                     isNewerIncoming = isLaterThan (correctionTime e) (rawCorrectionTime l),
                     changedFields = computeChangedFields l e\<rparr>]\<rparr>)"
  using assms by (simp add: classifyEntry_def Let_def)

lemma classifyEntry_cases:
  obtains
    (import) "\<forall>r. classifyEntry lc st e r = r\<lparr>autoImport := autoImport r @ [e]\<rparr>"
  | (discard) "\<forall>r. classifyEntry lc st e r = r"
  | (review) "\<forall>r. classifyEntry lc st e r = r\<lparr>batchReview := batchReview r @ [e]\<rparr>"
  | (replace) "\<forall>r. classifyEntry lc st e r = r\<lparr>autoReplace := autoReplace r @ [e]\<rparr>"
  | (conflict) c where "incoming c = e"
      "\<forall>r. classifyEntry lc st e r = r\<lparr>conflicts := conflicts r @ [c]\<rparr>"
proof (cases "matchingLocalOf st e")
  case None
  then show ?thesis using import by (simp add: classifyEntry_unmatched)
next
  case (Some l)
  show ?thesis
  proof (cases "flagOf (isCorrected l)"; cases "flagOf (isCorrected e)")
    assume "flagOf (isCorrected l)" "flagOf (isCorrected e)"
    note eq = classifyEntry_corrected_pair [OF Some this, of lc]
    show ?thesis
    proof (cases "generateDataFingerprint lc l = generateDataFingerprint lc e
                  \<and> \<bar>correctionTime l - correctionTime e\<bar> \<le> 1000")
      case True
      then show ?thesis using eq by (simp add: discard)
    next
      case False
      show ?thesis
      proof (cases "withinTolerance (rawCorrectionTime l) (correctionTime e)")
        case True
        then show ?thesis using eq False by (simp add: replace)
      next
        case far: False
        then have "\<forall>r. classifyEntry lc st e r = r\<lparr>conflicts := conflicts r @
                   [\<lparr>incoming = e, local = l, conflictType = CorrectedVsCorrected,
                     isNewerIncoming = isLaterThan (correctionTime e) (rawCorrectionTime l),
                     changedFields = computeChangedFields l e\<rparr>]\<rparr>"
          using eq False by simp
        then show ?thesis by (rule conflict [rotated]) simp
      qed
    qed
  next
    assume "flagOf (isCorrected l)" "\<not> flagOf (isCorrected e)"
    from classifyEntry_local_corrected [OF Some this, of lc]
    have "\<forall>r. classifyEntry lc st e r = r\<lparr>conflicts := conflicts r @
              [\<lparr>incoming = e, local = l, conflictType = CorrectedVsUncorrected,
                isNewerIncoming = False, changedFields = computeChangedFields l e\<rparr>]\<rparr>"
      by simp
    then show ?thesis by (rule conflict [rotated]) simp
  next
    assume "\<not> flagOf (isCorrected l)" "flagOf (isCorrected e)"
    from classifyEntry_incoming_corrected [OF Some this, of lc]
    show ?thesis by (simp add: replace)
  next
    assume "\<not> flagOf (isCorrected l)" "\<not> flagOf (isCorrected e)"
    from classifyEntry_uncorrected_pair [OF Some this, of lc]
    show ?thesis
      by (cases "generateDataFingerprint lc l = generateDataFingerprint lc e")
         (simp_all add: discard review)
  qed
qed

lemma classifyEntry_fields:
  "autoImport (classifyEntry lc st e r) = autoImport r @ autoImport (classifyEntry lc st e emptyResult)"
  "autoReplace (classifyEntry lc st e r) = autoReplace r @ autoReplace (classifyEntry lc st e emptyResult)"
  "batchReview (classifyEntry lc st e r) = batchReview r @ batchReview (classifyEntry lc st e emptyResult)"
  "conflicts (classifyEntry lc st e r) = conflicts r @ conflicts (classifyEntry lc st e emptyResult)"
  by (cases rule: classifyEntry_cases [of lc st e]; simp add: emptyResult_fields)+

lemma classifyEntry_own:
  "x \<in> set (autoImport (classifyEntry lc st e emptyResult)) \<Longrightarrow> x = e"
  "x \<in> set (autoReplace (classifyEntry lc st e emptyResult)) \<Longrightarrow> x = e"
  "x \<in> set (batchReview (classifyEntry lc st e emptyResult)) \<Longrightarrow> x = e"
  "c \<in> set (conflicts (classifyEntry lc st e emptyResult)) \<Longrightarrow> incoming c = e"
  by (cases rule: classifyEntry_cases [of lc st e]; simp add: emptyResult_fields)+

lemma foldl_autoImport:
  "autoImport (foldl (\<lambda>r e. classifyEntry lc st e r) r0 inc) =
     autoImport r0 @ concat (map (\<lambda>e. autoImport (classifyEntry lc st e emptyResult)) inc)"
proof (induction inc arbitrary: r0)
  case Nil
  show ?case by simp
next
  case (Cons e inc)
  show ?case by (simp add: Cons.IH classifyEntry_fields(1) [of lc st e r0])
qed

lemma foldl_autoReplace:
  "autoReplace (foldl (\<lambda>r e. classifyEntry lc st e r) r0 inc) =
     autoReplace r0 @ concat (map (\<lambda>e. autoReplace (classifyEntry lc st e emptyResult)) inc)"
proof (induction inc arbitrary: r0)
  case Nil
  show ?case by simp
next
  case (Cons e inc)
  show ?case by (simp add: Cons.IH classifyEntry_fields(2) [of lc st e r0])
qed

lemma foldl_batchReview:
  "batchReview (foldl (\<lambda>r e. classifyEntry lc st e r) r0 inc) =
     batchReview r0 @ concat (map (\<lambda>e. batchReview (classifyEntry lc st e emptyResult)) inc)"
proof (induction inc arbitrary: r0)
  case Nil
  show ?case by simp
next
  case (Cons e inc)
  show ?case by (simp add: Cons.IH classifyEntry_fields(3) [of lc st e r0])
qed

lemma foldl_conflicts:
  "conflicts (foldl (\<lambda>r e. classifyEntry lc st e r) r0 inc) =
     conflicts r0 @ concat (map (\<lambda>e. conflicts (classifyEntry lc st e emptyResult)) inc)"
proof (induction inc arbitrary: r0)
  case Nil
  show ?case by simp
next
  case (Cons e inc)
  show ?case by (simp add: Cons.IH classifyEntry_fields(4) [of lc st e r0])
qed

lemma detectConflicts_buckets:
  "autoImport (detectConflicts lc st inc) = concat (map (\<lambda>e. autoImport (classifyEntry lc st e emptyResult)) inc)"
  "autoReplace (detectConflicts lc st inc) = concat (map (\<lambda>e. autoReplace (classifyEntry lc st e emptyResult)) inc)"
  "batchReview (detectConflicts lc st inc) = concat (map (\<lambda>e. batchReview (classifyEntry lc st e emptyResult)) inc)"
  "conflicts (detectConflicts lc st inc) = concat (map (\<lambda>e. conflicts (classifyEntry lc st e emptyResult)) inc)"
  by (simp_all add: detectConflicts_def foldl_autoImport foldl_autoReplace foldl_batchReview
      foldl_conflicts emptyResult_fields)

lemma in_autoImport_iff:
  "x \<in> set (autoImport (detectConflicts lc st inc)) \<longleftrightarrow>
     x \<in> set inc \<and> x \<in> set (autoImport (classifyEntry lc st x emptyResult))"
  by (auto simp add: detectConflicts_buckets dest: classifyEntry_own)

lemma in_autoReplace_iff:
  "x \<in> set (autoReplace (detectConflicts lc st inc)) \<longleftrightarrow>
     x \<in> set inc \<and> x \<in> set (autoReplace (classifyEntry lc st x emptyResult))"
  by (auto simp add: detectConflicts_buckets dest: classifyEntry_own)

lemma in_batchReview_iff:
  "x \<in> set (batchReview (detectConflicts lc st inc)) \<longleftrightarrow>
     x \<in> set inc \<and> x \<in> set (batchReview (classifyEntry lc st x emptyResult))"
  by (auto simp add: detectConflicts_buckets dest: classifyEntry_own)

lemma in_conflicts_iff:
  "c \<in> set (conflicts (detectConflicts lc st inc)) \<longleftrightarrow>
     incoming c \<in> set inc \<and> c \<in> set (conflicts (classifyEntry lc st (incoming c) emptyResult))"
  by (auto simp add: detectConflicts_buckets dest: classifyEntry_own)


lemma flagOf_iff: "flagOf b \<longleftrightarrow> b = Some True"
  by (cases b) (simp_all add: flagOf_def)

lemma sample_match: "matchingLocalOf [sampleLocal] sampleIncoming = Some sampleLocal"
  by code_simp

lemma sample_fingerprints:
  "generateDataFingerprint lc sampleLocal \<noteq> generateDataFingerprint lc sampleIncoming"
  by (simp add: generateDataFingerprint_def dataStringOf_def arraySort_def fnvHash_def fnvStep_def
      numberToString_def digitsOf.simps digitChar_def sampleLocal_def sampleIncoming_def)

subsection \<open>Correction precedence\<close>

text \<open>
  C1: an incoming entry that matches a local entry (by primary id or by deterministic id)
  where the local entry is corrected and the incoming one is not, is put in
  \<open>conflicts\<close> with type corrected-vs-uncorrected and \<open>isNewerIncoming = False\<close>,
  and in none of \<open>autoImport\<close>, \<open>autoReplace\<close>, \<open>batchReview\<close>. When the local
  entry is uncorrected and the incoming one is corrected, the incoming entry is put in
  \<open>autoReplace\<close>.
\<close>
theorem correction_precedence:
  assumes "matchingLocalOf st e = Some l" and "e \<in> set inc"
  shows "(isCorrected l = Some True \<and> isCorrected e \<noteq> Some True \<longrightarrow>
            (\<exists>c \<in> set (conflicts (detectConflicts lc st inc)).
                incoming c = e \<and> local c = l \<and> conflictType c = CorrectedVsUncorrected
                \<and> \<not> isNewerIncoming c)
          \<and> (\<forall>c \<in> set (conflicts (detectConflicts lc st inc)).
                incoming c = e \<longrightarrow>
                  local c = l \<and> conflictType c = CorrectedVsUncorrected \<and> \<not> isNewerIncoming c)
          \<and> e \<notin> set (autoImport (detectConflicts lc st inc))
          \<and> e \<notin> set (autoReplace (detectConflicts lc st inc))
          \<and> e \<notin> set (batchReview (detectConflicts lc st inc)))
       \<and> (isCorrected l \<noteq> Some True \<and> isCorrected e = Some True \<longrightarrow>
            e \<in> set (autoReplace (detectConflicts lc st inc)))"
proof (intro conjI impI)
  assume c: "isCorrected l = Some True \<and> isCorrected e \<noteq> Some True"
  then have eq: "classifyEntry lc st e emptyResult =
      emptyResult\<lparr>conflicts := conflicts emptyResult @
        [\<lparr>incoming = e, local = l, conflictType = CorrectedVsUncorrected,
          isNewerIncoming = False, changedFields = computeChangedFields l e\<rparr>]\<rparr>"
    using classifyEntry_local_corrected [OF assms(1), of lc emptyResult] by (simp add: flagOf_iff)
  let ?c = "\<lparr>incoming = e, local = l, conflictType = CorrectedVsUncorrected,
          isNewerIncoming = False, changedFields = computeChangedFields l e\<rparr>"
  have "?c \<in> set (conflicts (detectConflicts lc st inc))"
    using assms(2) by (simp add: in_conflicts_iff eq emptyResult_fields)
  then show "\<exists>c \<in> set (conflicts (detectConflicts lc st inc)).
                incoming c = e \<and> local c = l \<and> conflictType c = CorrectedVsUncorrected
                \<and> \<not> isNewerIncoming c"
    by (intro bexI [of _ ?c]) simp_all
  show "\<forall>c \<in> set (conflicts (detectConflicts lc st inc)).
                incoming c = e \<longrightarrow>
                  local c = l \<and> conflictType c = CorrectedVsUncorrected \<and> \<not> isNewerIncoming c"
  proof (intro ballI impI)
    fix c
    assume "c \<in> set (conflicts (detectConflicts lc st inc))" and "incoming c = e"
    then have "c \<in> set (conflicts (classifyEntry lc st e emptyResult))"
      by (simp add: in_conflicts_iff)
    then have "c = ?c" by (simp add: eq emptyResult_fields)
    then show "local c = l \<and> conflictType c = CorrectedVsUncorrected \<and> \<not> isNewerIncoming c"
      by simp
  qed
  show "e \<notin> set (autoImport (detectConflicts lc st inc))"
    by (simp add: in_autoImport_iff eq emptyResult_fields)
  show "e \<notin> set (autoReplace (detectConflicts lc st inc))"
    by (simp add: in_autoReplace_iff eq emptyResult_fields)
  show "e \<notin> set (batchReview (detectConflicts lc st inc))"
    by (simp add: in_batchReview_iff eq emptyResult_fields)
next
  assume c: "isCorrected l \<noteq> Some True \<and> isCorrected e = Some True"
  then have eq: "classifyEntry lc st e emptyResult =
      emptyResult\<lparr>autoReplace := autoReplace emptyResult @ [e]\<rparr>"
    using classifyEntry_incoming_corrected [OF assms(1), of lc emptyResult] by (simp add: flagOf_iff)
  show "e \<in> set (autoReplace (detectConflicts lc st inc))"
    using assms(2) by (simp add: in_autoReplace_iff eq emptyResult_fields)
qed

theorem correction_precedence_witness:
  "matchingLocalOf [sampleLocal] sampleIncoming = Some sampleLocal
   \<and> isCorrected sampleLocal = Some True \<and> isCorrected sampleIncoming \<noteq> Some True
   \<and> (\<exists>c \<in> set (conflicts (detectConflicts codeUnitCompare [sampleLocal] [sampleIncoming])).
         incoming c = sampleIncoming \<and> local c = sampleLocal
         \<and> conflictType c = CorrectedVsUncorrected \<and> \<not> isNewerIncoming c)
   \<and> sampleIncoming \<notin> set (autoReplace (detectConflicts codeUnitCompare [sampleLocal] [sampleIncoming]))
   \<and> matchingLocalOf [sampleLocal\<lparr>isCorrected := None\<rparr>] (sampleIncoming\<lparr>isCorrected := Some True\<rparr>)
        = Some (sampleLocal\<lparr>isCorrected := None\<rparr>)
   \<and> sampleIncoming\<lparr>isCorrected := Some True\<rparr>
        \<in> set (autoReplace (detectConflicts codeUnitCompare [sampleLocal\<lparr>isCorrected := None\<rparr>]
                   [sampleIncoming\<lparr>isCorrected := Some True\<rparr>]))"
proof -
  have m2: "matchingLocalOf [sampleLocal\<lparr>isCorrected := None\<rparr>] (sampleIncoming\<lparr>isCorrected := Some True\<rparr>)
        = Some (sampleLocal\<lparr>isCorrected := None\<rparr>)"
    by code_simp
  have f: "isCorrected sampleLocal = Some True" "isCorrected sampleIncoming \<noteq> Some True"
    by (simp_all add: sampleLocal_def sampleIncoming_def)
  have a: "sampleIncoming \<in> set [sampleIncoming]" by simp
  have b: "sampleIncoming\<lparr>isCorrected := Some True\<rparr> \<in> set [sampleIncoming\<lparr>isCorrected := Some True\<rparr>]"
    by simp
  from correction_precedence [OF sample_match a, of codeUnitCompare]
       correction_precedence [OF m2 b, of codeUnitCompare] sample_match m2 f
  show ?thesis by simp
qed

lemma fingerprint_cong:
  "gameData a = gameData b \<Longrightarrow> generateDataFingerprint lc a = generateDataFingerprint lc b"
  by (simp add: generateDataFingerprint_def dataStringOf_def)

lemma discarded_in_no_bucket:
  assumes "classifyEntry lc st e emptyResult = emptyResult"
  shows "e \<notin> set (autoImport (detectConflicts lc st inc))
       \<and> e \<notin> set (autoReplace (detectConflicts lc st inc))
       \<and> e \<notin> set (batchReview (detectConflicts lc st inc))
       \<and> (\<forall>c \<in> set (conflicts (detectConflicts lc st inc)). incoming c \<noteq> e)"
proof -
  have "\<And>c. c \<in> set (conflicts (detectConflicts lc st inc)) \<Longrightarrow> incoming c \<noteq> e"
  proof
    fix c
    assume "c \<in> set (conflicts (detectConflicts lc st inc))" and "incoming c = e"
    then have "c \<in> set (conflicts (classifyEntry lc st e emptyResult))"
      by (simp add: in_conflicts_iff)
    then show False by (simp add: assms emptyResult_fields)
  qed
  then show ?thesis
    by (simp add: in_autoImport_iff in_autoReplace_iff in_batchReview_iff assms emptyResult_fields)
qed

lemma replaced_only:
  assumes "classifyEntry lc st e emptyResult = emptyResult\<lparr>autoReplace := autoReplace emptyResult @ [e]\<rparr>"
    and "e \<in> set inc"
  shows "e \<in> set (autoReplace (detectConflicts lc st inc))
       \<and> e \<notin> set (autoImport (detectConflicts lc st inc))
       \<and> e \<notin> set (batchReview (detectConflicts lc st inc))
       \<and> (\<forall>c \<in> set (conflicts (detectConflicts lc st inc)). incoming c \<noteq> e)"
proof -
  have "\<And>c. c \<in> set (conflicts (detectConflicts lc st inc)) \<Longrightarrow> incoming c \<noteq> e"
  proof
    fix c
    assume "c \<in> set (conflicts (detectConflicts lc st inc))" and "incoming c = e"
    then have "c \<in> set (conflicts (classifyEntry lc st e emptyResult))"
      by (simp add: in_conflicts_iff)
    then show False by (simp add: assms emptyResult_fields)
  qed
  then show ?thesis
    by (simp add: in_autoImport_iff in_autoReplace_iff in_batchReview_iff assms emptyResult_fields)
qed

lemma reviewed_only:
  assumes "classifyEntry lc st e emptyResult = emptyResult\<lparr>batchReview := batchReview emptyResult @ [e]\<rparr>"
    and "e \<in> set inc"
  shows "e \<in> set (batchReview (detectConflicts lc st inc))
       \<and> e \<notin> set (autoImport (detectConflicts lc st inc))
       \<and> e \<notin> set (autoReplace (detectConflicts lc st inc))
       \<and> (\<forall>c \<in> set (conflicts (detectConflicts lc st inc)). incoming c \<noteq> e)"
proof -
  have "\<And>c. c \<in> set (conflicts (detectConflicts lc st inc)) \<Longrightarrow> incoming c \<noteq> e"
  proof
    fix c
    assume "c \<in> set (conflicts (detectConflicts lc st inc))" and "incoming c = e"
    then have "c \<in> set (conflicts (classifyEntry lc st e emptyResult))"
      by (simp add: in_conflicts_iff)
    then show False by (simp add: assms emptyResult_fields)
  qed
  then show ?thesis
    by (simp add: in_autoImport_iff in_autoReplace_iff in_batchReview_iff assms emptyResult_fields)
qed

lemma conflicted_only:
  assumes "classifyEntry lc st e emptyResult = emptyResult\<lparr>conflicts := conflicts emptyResult @ [k]\<rparr>"
    and "e \<in> set inc" and "incoming k = e"
  shows "k \<in> set (conflicts (detectConflicts lc st inc))
       \<and> (\<forall>c \<in> set (conflicts (detectConflicts lc st inc)). incoming c = e \<longrightarrow> c = k)
       \<and> e \<notin> set (autoImport (detectConflicts lc st inc))
       \<and> e \<notin> set (autoReplace (detectConflicts lc st inc))
       \<and> e \<notin> set (batchReview (detectConflicts lc st inc))"
proof (intro conjI ballI impI)
  show "k \<in> set (conflicts (detectConflicts lc st inc))"
    by (simp add: in_conflicts_iff assms emptyResult_fields)
next
  fix c
  assume "c \<in> set (conflicts (detectConflicts lc st inc))" and "incoming c = e"
  then have "c \<in> set (conflicts (classifyEntry lc st e emptyResult))"
    by (simp add: in_conflicts_iff)
  then show "c = k" by (simp add: assms(1) emptyResult_fields)
next
  show "e \<notin> set (autoImport (detectConflicts lc st inc))"
    by (simp add: in_autoImport_iff assms(1) emptyResult_fields)
  show "e \<notin> set (autoReplace (detectConflicts lc st inc))"
    by (simp add: in_autoReplace_iff assms(1) emptyResult_fields)
  show "e \<notin> set (batchReview (detectConflicts lc st inc))"
    by (simp add: in_batchReview_iff assms(1) emptyResult_fields)
qed

subsection \<open>Two uncorrected captures\<close>

text \<open>
  C4: for a matched pair where both entries are uncorrected, equal fingerprints leave the
  incoming entry out of all four buckets, and different fingerprints put it in
  \<open>batchReview\<close> and in no other bucket.
\<close>
theorem both_uncorrected:
  assumes "matchingLocalOf st e = Some l" and "e \<in> set inc"
    and "isCorrected l \<noteq> Some True" and "isCorrected e \<noteq> Some True"
  shows "(generateDataFingerprint lc l = generateDataFingerprint lc e \<longrightarrow>
            e \<notin> set (autoImport (detectConflicts lc st inc))
          \<and> e \<notin> set (autoReplace (detectConflicts lc st inc))
          \<and> e \<notin> set (batchReview (detectConflicts lc st inc))
          \<and> (\<forall>c \<in> set (conflicts (detectConflicts lc st inc)). incoming c \<noteq> e))
       \<and> (generateDataFingerprint lc l \<noteq> generateDataFingerprint lc e \<longrightarrow>
            e \<in> set (batchReview (detectConflicts lc st inc))
          \<and> e \<notin> set (autoImport (detectConflicts lc st inc))
          \<and> e \<notin> set (autoReplace (detectConflicts lc st inc))
          \<and> (\<forall>c \<in> set (conflicts (detectConflicts lc st inc)). incoming c \<noteq> e))"
proof -
  note eq = classifyEntry_uncorrected_pair [OF assms(1), of lc emptyResult]
  show ?thesis
  proof (intro conjI impI)
    assume "generateDataFingerprint lc l = generateDataFingerprint lc e"
    then have d: "classifyEntry lc st e emptyResult = emptyResult"
      using eq assms(3,4) by (simp add: flagOf_iff)
    from discarded_in_no_bucket [OF d, of inc]
    show "e \<notin> set (autoImport (detectConflicts lc st inc))"
      and "e \<notin> set (autoReplace (detectConflicts lc st inc))"
      and "e \<notin> set (batchReview (detectConflicts lc st inc))"
      and "\<forall>c \<in> set (conflicts (detectConflicts lc st inc)). incoming c \<noteq> e"
      by simp_all
  next
    assume "generateDataFingerprint lc l \<noteq> generateDataFingerprint lc e"
    then have d: "classifyEntry lc st e emptyResult =
        emptyResult\<lparr>batchReview := batchReview emptyResult @ [e]\<rparr>"
      using eq assms(3,4) by (simp add: flagOf_iff)
    from reviewed_only [OF d assms(2)]
    show "e \<in> set (batchReview (detectConflicts lc st inc))"
      and "e \<notin> set (autoImport (detectConflicts lc st inc))"
      and "e \<notin> set (autoReplace (detectConflicts lc st inc))"
      and "\<forall>c \<in> set (conflicts (detectConflicts lc st inc)). incoming c \<noteq> e"
      by simp_all
  qed
qed


subsection \<open>Two corrections\<close>

text \<open>
  When the local entry has a correction time (a non-zero \<open>lastCorrectedAt\<close>, or a
  \<open>timestamp\<close>), the two tests of the time difference agree and the three cases of a
  pair of corrections are as follows.
\<close>

lemma corrected_pair_with_local_time:
  assumes "matchingLocalOf st e = Some l" and "e \<in> set inc"
    and "isCorrected l = Some True" and "isCorrected e = Some True"
    and "rawCorrectionTime l \<noteq> None"
  shows "(generateDataFingerprint lc l = generateDataFingerprint lc e
            \<and> \<bar>correctionTime l - correctionTime e\<bar> \<le> 1000 \<longrightarrow>
            e \<notin> set (autoImport (detectConflicts lc st inc))
          \<and> e \<notin> set (autoReplace (detectConflicts lc st inc))
          \<and> e \<notin> set (batchReview (detectConflicts lc st inc))
          \<and> (\<forall>c \<in> set (conflicts (detectConflicts lc st inc)). incoming c \<noteq> e))
       \<and> (generateDataFingerprint lc l \<noteq> generateDataFingerprint lc e
            \<and> \<bar>correctionTime l - correctionTime e\<bar> \<le> 1000 \<longrightarrow>
            e \<in> set (autoReplace (detectConflicts lc st inc)))
       \<and> (generateDataFingerprint lc l \<noteq> generateDataFingerprint lc e
            \<and> \<bar>correctionTime l - correctionTime e\<bar> > 1000 \<longrightarrow>
            (\<exists>c \<in> set (conflicts (detectConflicts lc st inc)).
                incoming c = e \<and> local c = l \<and> conflictType c = CorrectedVsCorrected
                \<and> (isNewerIncoming c \<longleftrightarrow> correctionTime e > correctionTime l))
          \<and> (\<forall>c \<in> set (conflicts (detectConflicts lc st inc)).
                incoming c = e \<longrightarrow>
                  local c = l \<and> conflictType c = CorrectedVsCorrected
                  \<and> (isNewerIncoming c \<longleftrightarrow> correctionTime e > correctionTime l)))"
proof -
  have fl: "flagOf (isCorrected l)" and fe: "flagOf (isCorrected e)"
    using assms(3,4) by (simp_all add: flagOf_iff)
  from assms(5) obtain t where t: "rawCorrectionTime l = Some t" by auto
  have ct: "correctionTime l = t" by (rule correctionTime_raw(1) [OF t])
  have w: "withinTolerance (rawCorrectionTime l) (correctionTime e)
             \<longleftrightarrow> \<bar>correctionTime l - correctionTime e\<bar> \<le> 1000"
    by (simp add: withinTolerance_def t ct)
  have n: "isLaterThan (correctionTime e) (rawCorrectionTime l)
             \<longleftrightarrow> correctionTime e > correctionTime l"
    by (simp add: isLaterThan_def t ct)
  note eq = classifyEntry_corrected_pair [OF assms(1) fl fe, of lc emptyResult]
  let ?k = "\<lparr>incoming = e, local = l, conflictType = CorrectedVsCorrected,
             isNewerIncoming = (correctionTime e > correctionTime l),
             changedFields = computeChangedFields l e\<rparr>"
  show ?thesis
  proof (intro conjI impI)
    assume h: "generateDataFingerprint lc l = generateDataFingerprint lc e
               \<and> \<bar>correctionTime l - correctionTime e\<bar> \<le> 1000"
    then have d: "classifyEntry lc st e emptyResult = emptyResult"
      using eq by simp
    from discarded_in_no_bucket [OF d, of inc]
    show "e \<notin> set (autoImport (detectConflicts lc st inc))"
      and "e \<notin> set (autoReplace (detectConflicts lc st inc))"
      and "e \<notin> set (batchReview (detectConflicts lc st inc))"
      and "\<forall>c \<in> set (conflicts (detectConflicts lc st inc)). incoming c \<noteq> e"
      by simp_all
  next
    assume h: "generateDataFingerprint lc l \<noteq> generateDataFingerprint lc e
               \<and> \<bar>correctionTime l - correctionTime e\<bar> \<le> 1000"
    then have d: "classifyEntry lc st e emptyResult =
        emptyResult\<lparr>autoReplace := autoReplace emptyResult @ [e]\<rparr>"
      using eq w by simp
    from replaced_only [OF d assms(2)]
    show "e \<in> set (autoReplace (detectConflicts lc st inc))" by simp
  next
    assume h: "generateDataFingerprint lc l \<noteq> generateDataFingerprint lc e
               \<and> \<bar>correctionTime l - correctionTime e\<bar> > 1000"
    then have d: "classifyEntry lc st e emptyResult =
        emptyResult\<lparr>conflicts := conflicts emptyResult @ [?k]\<rparr>"
      using eq w n by simp
    have i: "incoming ?k = e" by simp
    note co = conflicted_only [OF d assms(2) i]
    from co have "?k \<in> set (conflicts (detectConflicts lc st inc))" by simp
    then show "\<exists>c \<in> set (conflicts (detectConflicts lc st inc)).
                incoming c = e \<and> local c = l \<and> conflictType c = CorrectedVsCorrected
                \<and> (isNewerIncoming c \<longleftrightarrow> correctionTime e > correctionTime l)"
      by (intro bexI [of _ ?k]) simp_all
    show "\<forall>c \<in> set (conflicts (detectConflicts lc st inc)).
                incoming c = e \<longrightarrow>
                  local c = l \<and> conflictType c = CorrectedVsCorrected
                  \<and> (isNewerIncoming c \<longleftrightarrow> correctionTime e > correctionTime l)"
    proof (intro ballI impI)
      fix c
      assume "c \<in> set (conflicts (detectConflicts lc st inc))" and "incoming c = e"
      with co have "c = ?k" by blast
      then show "local c = l \<and> conflictType c = CorrectedVsCorrected
                  \<and> (isNewerIncoming c \<longleftrightarrow> correctionTime e > correctionTime l)"
        by simp
    qed
  qed
qed

lemma sample_correction_match:
  "matchingLocalOf [sampleLocal] (sampleCorrection 1500) = Some sampleLocal"
  "matchingLocalOf [sampleLocal] (sampleCorrection 5000) = Some sampleLocal"
  "matchingLocalOf [sampleLocal] (sampleSameCorrection 1500) = Some sampleLocal"
  by code_simp+

lemma sample_correction_times:
  "correctionTime sampleLocal = 1000"
  "correctionTime (sampleCorrection t) = (if t = 0 then 700 else t)"
  "correctionTime (sampleSameCorrection t) = (if t = 0 then 500 else t)"
  by (simp_all add: correctionTime_def jsOr_def jsOrOpt_def sampleLocal_def sampleIncoming_def
      sampleCorrection_def sampleSameCorrection_def)

lemma sample_correction_flags:
  "isCorrected sampleLocal = Some True"
  "isCorrected (sampleCorrection t) = Some True"
  "isCorrected (sampleSameCorrection t) = Some True"
  by (simp_all add: sampleLocal_def sampleCorrection_def sampleSameCorrection_def)

lemma sample_correction_fingerprints:
  "generateDataFingerprint lc sampleLocal \<noteq> generateDataFingerprint lc (sampleCorrection t)"
  "generateDataFingerprint lc sampleLocal = generateDataFingerprint lc (sampleSameCorrection t)"
proof -
  have "generateDataFingerprint lc (sampleCorrection t) = generateDataFingerprint lc sampleIncoming"
    by (rule fingerprint_cong) (simp add: sampleCorrection_def)
  then show "generateDataFingerprint lc sampleLocal \<noteq> generateDataFingerprint lc (sampleCorrection t)"
    using sample_fingerprints [of lc] by simp
  show "generateDataFingerprint lc sampleLocal = generateDataFingerprint lc (sampleSameCorrection t)"
    by (rule fingerprint_cong) (simp add: sampleSameCorrection_def)
qed

lemma corrected_pair_examples:
  "matchingLocalOf [sampleLocal] (sampleSameCorrection 1500) = Some sampleLocal
   \<and> generateDataFingerprint codeUnitCompare sampleLocal
       = generateDataFingerprint codeUnitCompare (sampleSameCorrection 1500)
   \<and> \<bar>correctionTime sampleLocal - correctionTime (sampleSameCorrection 1500)\<bar> \<le> 1000
   \<and> sampleSameCorrection 1500 \<notin> set (autoReplace
         (detectConflicts codeUnitCompare [sampleLocal] [sampleSameCorrection 1500]))
   \<and> sampleSameCorrection 1500 \<notin> set (batchReview
         (detectConflicts codeUnitCompare [sampleLocal] [sampleSameCorrection 1500]))
   \<and> generateDataFingerprint codeUnitCompare sampleLocal
       \<noteq> generateDataFingerprint codeUnitCompare (sampleCorrection 1500)
   \<and> \<bar>correctionTime sampleLocal - correctionTime (sampleCorrection 1500)\<bar> \<le> 1000
   \<and> sampleCorrection 1500 \<in> set (autoReplace
         (detectConflicts codeUnitCompare [sampleLocal] [sampleCorrection 1500]))
   \<and> \<bar>correctionTime sampleLocal - correctionTime (sampleCorrection 5000)\<bar> > 1000
   \<and> (\<exists>c \<in> set (conflicts (detectConflicts codeUnitCompare [sampleLocal] [sampleCorrection 5000])).
         incoming c = sampleCorrection 5000 \<and> local c = sampleLocal
         \<and> conflictType c = CorrectedVsCorrected \<and> isNewerIncoming c)"
proof -
  have t: "\<bar>correctionTime sampleLocal - correctionTime (sampleSameCorrection 1500)\<bar> \<le> 1000"
    "\<bar>correctionTime sampleLocal - correctionTime (sampleCorrection 1500)\<bar> \<le> 1000"
    "\<bar>correctionTime sampleLocal - correctionTime (sampleCorrection 5000)\<bar> > 1000"
    "correctionTime (sampleCorrection 5000) > correctionTime sampleLocal"
    by (simp_all add: sample_correction_times)
  have a: "sampleSameCorrection 1500 \<in> set [sampleSameCorrection 1500]"
    and b: "sampleCorrection 1500 \<in> set [sampleCorrection 1500]"
    and c: "sampleCorrection 5000 \<in> set [sampleCorrection 5000]"
    by simp_all
  note f = sample_correction_fingerprints [of codeUnitCompare]
  have r: "rawCorrectionTime sampleLocal \<noteq> None"
    by (simp add: rawCorrectionTime_def jsOrOpt_def sampleLocal_def)
  from corrected_pair_with_local_time [OF sample_correction_match(3) a sample_correction_flags(1,3) r,
      of codeUnitCompare]
    f(2) [of 1500] t(1)
  have 1: "sampleSameCorrection 1500 \<notin> set (autoReplace
         (detectConflicts codeUnitCompare [sampleLocal] [sampleSameCorrection 1500]))
   \<and> sampleSameCorrection 1500 \<notin> set (batchReview
         (detectConflicts codeUnitCompare [sampleLocal] [sampleSameCorrection 1500]))"
    by blast
  from corrected_pair_with_local_time [OF sample_correction_match(1) b sample_correction_flags(1,2) r,
      of codeUnitCompare]
    f(1) [of 1500] t(2)
  have 2: "sampleCorrection 1500 \<in> set (autoReplace
         (detectConflicts codeUnitCompare [sampleLocal] [sampleCorrection 1500]))"
    by blast
  from corrected_pair_with_local_time [OF sample_correction_match(2) c sample_correction_flags(1,2) r,
      of codeUnitCompare]
    f(1) [of 5000] t(3,4)
  have 3: "\<exists>c \<in> set (conflicts (detectConflicts codeUnitCompare [sampleLocal] [sampleCorrection 5000])).
         incoming c = sampleCorrection 5000 \<and> local c = sampleLocal
         \<and> conflictType c = CorrectedVsCorrected \<and> isNewerIncoming c"
    by blast
  from 1 2 3 t f sample_correction_match show ?thesis by blast
qed

lemma sample_untimed_match:
  "matchingLocalOf [sampleUntimedLocal] (sampleCorrection 500) = Some sampleUntimedLocal"
  "matchingLocalOf [sampleUntimedLocal] (sampleCorrection 5000) = Some sampleUntimedLocal"
  by code_simp+

lemma sample_untimed_facts:
  "isCorrected sampleUntimedLocal = Some True"
  "rawCorrectionTime sampleUntimedLocal = None"
  "correctionTime sampleUntimedLocal = 0"
  by (simp_all add: sampleUntimedLocal_def sampleLocal_def rawCorrectionTime_def
      correctionTime_def jsOrOpt_def jsOr_def)

lemma sample_untimed_fingerprints:
  "generateDataFingerprint lc sampleUntimedLocal \<noteq> generateDataFingerprint lc (sampleCorrection t)"
proof -
  have "generateDataFingerprint lc sampleUntimedLocal = generateDataFingerprint lc sampleLocal"
    by (rule fingerprint_cong) (simp add: sampleUntimedLocal_def)
  then show ?thesis using sample_correction_fingerprints(1) [of lc t] by simp
qed

lemma sample_untimed_classified:
  "classifyEntry lc [sampleUntimedLocal] (sampleCorrection 500) emptyResult =
     emptyResult\<lparr>conflicts := conflicts emptyResult @
       [\<lparr>incoming = sampleCorrection 500, local = sampleUntimedLocal,
         conflictType = CorrectedVsCorrected, isNewerIncoming = False,
         changedFields = computeChangedFields sampleUntimedLocal (sampleCorrection 500)\<rparr>]\<rparr>"
  "classifyEntry lc [sampleUntimedLocal] (sampleCorrection 5000) emptyResult =
     emptyResult\<lparr>conflicts := conflicts emptyResult @
       [\<lparr>incoming = sampleCorrection 5000, local = sampleUntimedLocal,
         conflictType = CorrectedVsCorrected, isNewerIncoming = False,
         changedFields = computeChangedFields sampleUntimedLocal (sampleCorrection 5000)\<rparr>]\<rparr>"
proof -
  have f: "flagOf (isCorrected sampleUntimedLocal)" "flagOf (isCorrected (sampleCorrection t))" for t
    by (simp_all add: flagOf_iff sample_untimed_facts sample_correction_flags)
  show "classifyEntry lc [sampleUntimedLocal] (sampleCorrection 500) emptyResult =
     emptyResult\<lparr>conflicts := conflicts emptyResult @
       [\<lparr>incoming = sampleCorrection 500, local = sampleUntimedLocal,
         conflictType = CorrectedVsCorrected, isNewerIncoming = False,
         changedFields = computeChangedFields sampleUntimedLocal (sampleCorrection 500)\<rparr>]\<rparr>"
    by (simp add: classifyEntry_corrected_pair [OF sample_untimed_match(1) f]
        sample_untimed_fingerprints sample_untimed_facts withinTolerance_def isLaterThan_def)
  show "classifyEntry lc [sampleUntimedLocal] (sampleCorrection 5000) emptyResult =
     emptyResult\<lparr>conflicts := conflicts emptyResult @
       [\<lparr>incoming = sampleCorrection 5000, local = sampleUntimedLocal,
         conflictType = CorrectedVsCorrected, isNewerIncoming = False,
         changedFields = computeChangedFields sampleUntimedLocal (sampleCorrection 5000)\<rparr>]\<rparr>"
    by (simp add: classifyEntry_corrected_pair [OF sample_untimed_match(2) f]
        sample_untimed_fingerprints sample_untimed_facts withinTolerance_def isLaterThan_def)
qed

text \<open>
  C3: for a matched pair of corrected entries with different fingerprints, correction
  times at most 1000 ms apart should put the incoming entry in \<open>autoReplace\<close>, and
  times further apart should put the pair in \<open>conflicts\<close> with \<open>isNewerIncoming\<close>
  exactly when the incoming time is the greater one. The first test of the time
  difference reads the local time with \<^verbatim>\<open>|| 0\<close>; the second one, which decides these
  two cases, does not. A corrected local row with neither \<open>lastCorrectedAt\<close> nor
  \<open>timestamp\<close> has the correction time 0, yet an incoming correction made at 500 is
  not in \<open>autoReplace\<close> but in \<open>conflicts\<close>, and one made at 5000 is not marked as the
  newer one.
\<close>

theorem untimed_local_correction_conflicts:
  "matchingLocalOf [sampleUntimedLocal] (sampleCorrection 500) = Some sampleUntimedLocal
   \<and> isCorrected sampleUntimedLocal = Some True
   \<and> isCorrected (sampleCorrection 500) = Some True
   \<and> generateDataFingerprint codeUnitCompare sampleUntimedLocal
       \<noteq> generateDataFingerprint codeUnitCompare (sampleCorrection 500)
   \<and> correctionTime sampleUntimedLocal = 0
   \<and> correctionTime (sampleCorrection 500) = 500
   \<and> autoReplace (detectConflicts codeUnitCompare [sampleUntimedLocal] [sampleCorrection 500]) = []
   \<and> conflicts (detectConflicts codeUnitCompare [sampleUntimedLocal] [sampleCorrection 500])
       = [\<lparr>incoming = sampleCorrection 500, local = sampleUntimedLocal,
           conflictType = CorrectedVsCorrected, isNewerIncoming = False,
           changedFields = computeChangedFields sampleUntimedLocal (sampleCorrection 500)\<rparr>]
   \<and> matchingLocalOf [sampleUntimedLocal] (sampleCorrection 5000) = Some sampleUntimedLocal
   \<and> correctionTime (sampleCorrection 5000) = 5000
   \<and> conflicts (detectConflicts codeUnitCompare [sampleUntimedLocal] [sampleCorrection 5000])
       = [\<lparr>incoming = sampleCorrection 5000, local = sampleUntimedLocal,
           conflictType = CorrectedVsCorrected, isNewerIncoming = False,
           changedFields = computeChangedFields sampleUntimedLocal (sampleCorrection 5000)\<rparr>]"
  by (simp add: sample_untimed_match sample_untimed_facts sample_correction_flags
      sample_untimed_fingerprints sample_correction_times detectConflicts_buckets
      sample_untimed_classified emptyResult_fields)

lemma sample_uncorrected_match:
  "matchingLocalOf [sampleUncorrectedLocal] sampleIncoming = Some sampleUncorrectedLocal"
  "matchingLocalOf [sampleUncorrectedLocal] sampleDuplicate = Some sampleUncorrectedLocal"
  "matchingLocalOf [sampleBareLocal] sampleBareIncoming = Some sampleBareLocal"
  by code_simp+

lemma sample_uncorrected_flags:
  "isCorrected sampleUncorrectedLocal \<noteq> Some True"
  "isCorrected sampleIncoming \<noteq> Some True"
  "isCorrected sampleDuplicate \<noteq> Some True"
  "isCorrected sampleBareLocal \<noteq> Some True"
  "isCorrected sampleBareIncoming \<noteq> Some True"
  by (simp_all add: sampleUncorrectedLocal_def sampleIncoming_def sampleDuplicate_def
      sampleBareLocal_def sampleBareIncoming_def)

lemma sample_uncorrected_fingerprints:
  "generateDataFingerprint lc sampleUncorrectedLocal \<noteq> generateDataFingerprint lc sampleIncoming"
  "generateDataFingerprint lc sampleUncorrectedLocal = generateDataFingerprint lc sampleDuplicate"
proof -
  have "generateDataFingerprint lc sampleUncorrectedLocal = generateDataFingerprint lc sampleLocal"
    by (rule fingerprint_cong) (simp add: sampleUncorrectedLocal_def)
  then show "generateDataFingerprint lc sampleUncorrectedLocal \<noteq> generateDataFingerprint lc sampleIncoming"
    using sample_fingerprints [of lc] by simp
  show "generateDataFingerprint lc sampleUncorrectedLocal = generateDataFingerprint lc sampleDuplicate"
    by (rule fingerprint_cong) (simp add: sampleDuplicate_def)
qed

theorem both_uncorrected_witness:
  "matchingLocalOf [sampleUncorrectedLocal] sampleDuplicate = Some sampleUncorrectedLocal
   \<and> isCorrected sampleUncorrectedLocal \<noteq> Some True \<and> isCorrected sampleDuplicate \<noteq> Some True
   \<and> generateDataFingerprint codeUnitCompare sampleUncorrectedLocal
       = generateDataFingerprint codeUnitCompare sampleDuplicate
   \<and> sampleDuplicate \<notin> set (batchReview
         (detectConflicts codeUnitCompare [sampleUncorrectedLocal] [sampleDuplicate]))
   \<and> sampleDuplicate \<notin> set (autoImport
         (detectConflicts codeUnitCompare [sampleUncorrectedLocal] [sampleDuplicate]))
   \<and> matchingLocalOf [sampleUncorrectedLocal] sampleIncoming = Some sampleUncorrectedLocal
   \<and> isCorrected sampleIncoming \<noteq> Some True
   \<and> generateDataFingerprint codeUnitCompare sampleUncorrectedLocal
       \<noteq> generateDataFingerprint codeUnitCompare sampleIncoming
   \<and> sampleIncoming \<in> set (batchReview
         (detectConflicts codeUnitCompare [sampleUncorrectedLocal] [sampleIncoming]))
   \<and> sampleIncoming \<notin> set (autoReplace
         (detectConflicts codeUnitCompare [sampleUncorrectedLocal] [sampleIncoming]))"
proof -
  have a: "sampleDuplicate \<in> set [sampleDuplicate]" and b: "sampleIncoming \<in> set [sampleIncoming]"
    by simp_all
  note f = sample_uncorrected_fingerprints [of codeUnitCompare]
  from both_uncorrected [OF sample_uncorrected_match(2) a sample_uncorrected_flags(1,3),
      of codeUnitCompare] f(2)
  have 1: "sampleDuplicate \<notin> set (batchReview
         (detectConflicts codeUnitCompare [sampleUncorrectedLocal] [sampleDuplicate]))
   \<and> sampleDuplicate \<notin> set (autoImport
         (detectConflicts codeUnitCompare [sampleUncorrectedLocal] [sampleDuplicate]))"
    by blast
  from both_uncorrected [OF sample_uncorrected_match(1) b sample_uncorrected_flags(1,2),
      of codeUnitCompare] f(1)
  have 2: "sampleIncoming \<in> set (batchReview
         (detectConflicts codeUnitCompare [sampleUncorrectedLocal] [sampleIncoming]))
   \<and> sampleIncoming \<notin> set (autoReplace
         (detectConflicts codeUnitCompare [sampleUncorrectedLocal] [sampleIncoming]))"
    by blast
  from 1 2 f sample_uncorrected_match sample_uncorrected_flags show ?thesis by blast
qed

lemma offset_basis_base36: "digitsOf 36 2166136261 = ''ztntfp''"
  by (simp add: digitsOf.simps digitChar_def)

lemma dataStringOf_empty:
  "gameData e = None \<or> gameData e = Some [] \<Longrightarrow> dataStringOf lc e = []"
  by (auto simp add: dataStringOf_def arraySort_def)

lemma fingerprint_of_empty_payload:
  assumes "gameData e = None \<or> gameData e = Some []"
  shows "generateDataFingerprint lc e = digitsOf 36 2166136261"
proof -
  have "unat (fnvHash []) = 2166136261" by (simp add: fnvHash_def)
  then show ?thesis
    by (simp only: generateDataFingerprint_def dataStringOf_empty [OF assms])
qed

subsection \<open>Entries without a payload\<close>

text \<open>
  C10: an entry whose \<open>gameData\<close> is absent or the empty object has the fingerprint
  that is the base-36 numeral of the offset basis 2166136261, whatever its other fields
  are. So two such matched entries with equal corrected flags count as identical in
  content: if both are uncorrected, or both are corrected within 1000 ms of each other,
  the incoming entry is left out of every bucket.
\<close>
theorem empty_payload_fingerprint:
  assumes "gameData e = None \<or> gameData e = Some []"
    and "gameData l = None \<or> gameData l = Some []"
  shows "generateDataFingerprint lc e = digitsOf 36 2166136261
       \<and> generateDataFingerprint lc l = digitsOf 36 2166136261
       \<and> digitsOf 36 2166136261 = ''ztntfp''
       \<and> (matchingLocalOf st e = Some l \<and> e \<in> set inc
            \<and> isCorrected l \<noteq> Some True \<and> isCorrected e \<noteq> Some True \<longrightarrow>
            e \<notin> set (autoImport (detectConflicts lc st inc))
          \<and> e \<notin> set (autoReplace (detectConflicts lc st inc))
          \<and> e \<notin> set (batchReview (detectConflicts lc st inc))
          \<and> (\<forall>c \<in> set (conflicts (detectConflicts lc st inc)). incoming c \<noteq> e))
       \<and> (matchingLocalOf st e = Some l \<and> e \<in> set inc
            \<and> isCorrected l = Some True \<and> isCorrected e = Some True
            \<and> \<bar>correctionTime l - correctionTime e\<bar> \<le> 1000 \<longrightarrow>
            e \<notin> set (autoImport (detectConflicts lc st inc))
          \<and> e \<notin> set (autoReplace (detectConflicts lc st inc))
          \<and> e \<notin> set (batchReview (detectConflicts lc st inc))
          \<and> (\<forall>c \<in> set (conflicts (detectConflicts lc st inc)). incoming c \<noteq> e))"
proof -
  note d = offset_basis_base36
  have fe: "generateDataFingerprint lc e = digitsOf 36 2166136261"
    and fl: "generateDataFingerprint lc l = digitsOf 36 2166136261"
    using assms by (simp_all only: fingerprint_of_empty_payload)
  have u: "e \<notin> set (autoImport (detectConflicts lc st inc))
          \<and> e \<notin> set (autoReplace (detectConflicts lc st inc))
          \<and> e \<notin> set (batchReview (detectConflicts lc st inc))
          \<and> (\<forall>c \<in> set (conflicts (detectConflicts lc st inc)). incoming c \<noteq> e)"
    if h: "matchingLocalOf st e = Some l \<and> e \<in> set inc
            \<and> isCorrected l \<noteq> Some True \<and> isCorrected e \<noteq> Some True"
  proof -
    from h have m: "matchingLocalOf st e = Some l" by simp
    have "classifyEntry lc st e emptyResult = emptyResult"
      using classifyEntry_uncorrected_pair [OF m, of lc emptyResult] h fe fl
      by (simp add: flagOf_iff)
    then show ?thesis by (rule discarded_in_no_bucket)
  qed
  have c: "e \<notin> set (autoImport (detectConflicts lc st inc))
          \<and> e \<notin> set (autoReplace (detectConflicts lc st inc))
          \<and> e \<notin> set (batchReview (detectConflicts lc st inc))
          \<and> (\<forall>c \<in> set (conflicts (detectConflicts lc st inc)). incoming c \<noteq> e)"
    if h: "matchingLocalOf st e = Some l \<and> e \<in> set inc
            \<and> isCorrected l = Some True \<and> isCorrected e = Some True
            \<and> \<bar>correctionTime l - correctionTime e\<bar> \<le> 1000"
  proof -
    from h have m: "matchingLocalOf st e = Some l" by simp
    have "classifyEntry lc st e emptyResult = emptyResult"
      using classifyEntry_corrected_pair [OF m, of lc emptyResult] h fe fl
      by (simp add: flagOf_iff)
    then show ?thesis by (rule discarded_in_no_bucket)
  qed
  from d fe fl u c show ?thesis by (simp only: simp_thms) blast
qed

theorem empty_payload_fingerprint_witness:
  "(gameData sampleBareIncoming = None \<or> gameData sampleBareIncoming = Some [])
   \<and> (gameData sampleBareLocal = None \<or> gameData sampleBareLocal = Some [])
   \<and> generateDataFingerprint codeUnitCompare sampleBareIncoming = digitsOf 36 2166136261
   \<and> generateDataFingerprint codeUnitCompare sampleBareLocal = digitsOf 36 2166136261
   \<and> matchingLocalOf [sampleBareLocal] sampleBareIncoming = Some sampleBareLocal
   \<and> isCorrected sampleBareLocal \<noteq> Some True \<and> isCorrected sampleBareIncoming \<noteq> Some True
   \<and> sampleBareIncoming \<notin> set (batchReview
         (detectConflicts codeUnitCompare [sampleBareLocal] [sampleBareIncoming]))
   \<and> sampleBareIncoming \<notin> set (autoImport
         (detectConflicts codeUnitCompare [sampleBareLocal] [sampleBareIncoming]))"
proof -
  have g: "gameData sampleBareIncoming = None \<or> gameData sampleBareIncoming = Some []"
    "gameData sampleBareLocal = None \<or> gameData sampleBareLocal = Some []"
    by (simp_all add: sampleBareIncoming_def sampleBareLocal_def)
  have a: "sampleBareIncoming \<in> set [sampleBareIncoming]" by simp
  from empty_payload_fingerprint [OF g, of codeUnitCompare "[sampleBareLocal]" "[sampleBareIncoming]"]
    g a sample_uncorrected_match(3) sample_uncorrected_flags(4,5)
  show ?thesis by (simp only: simp_thms)
qed

subsection \<open>Key order inside nested objects\<close>

text \<open>
  C2: the fingerprint is meant not to depend on the order of the keys of the payload,
  also inside nested objects. Only the top-level keys are sorted; a nested object is
  written by \<^verbatim>\<open>JSON.stringify\<close> in its own key order. The payloads
  \<^verbatim>\<open>{a:{b:1,c:2}}\<close> and \<^verbatim>\<open>{a:{c:2,b:1}}\<close> hold the same data and get
  different fingerprints.
\<close>
theorem fingerprint_depends_on_nested_key_order:
  "generateDataFingerprint codeUnitCompare
      (sampleLocal\<lparr>gameData := Some [(''a'', JObj [(''b'', JNum 1), (''c'', JNum 2)])]\<rparr>) = ''usc1og''
   \<and> generateDataFingerprint codeUnitCompare
      (sampleLocal\<lparr>gameData := Some [(''a'', JObj [(''c'', JNum 2), (''b'', JNum 1)])]\<rparr>) = ''3f4gu4''"
  by (simp add: generateDataFingerprint_def dataStringOf_def arraySort_def fnvHash_def fnvStep_def
      quoteJSONString_def escapeChar_def numberToString_def digitsOf.simps digitChar_def)

section \<open>Properties of the relay\<close>

lemma signalPath_ok: "startsWith signalPath ''/.netlify/functions/webrtc-signal''"
  by (simp add: startsWith_def signalPath_def)

lemma queueOf_upd: "queueOf (rooms(rid \<mapsto> r)) rid = messages r"
  by (simp add: queueOf_def)

lemma queueOf_roomOrNew: "messages (roomOrNew rooms now rid) = queueOf rooms rid"
  by (simp add: roomOrNew_def queueOf_def split: option.splits)

lemma handler_post:
  assumes "startsWith path ''/.netlify/functions/webrtc-signal''"
    and "messageType m \<noteq> Ping" and "roomId m = Some rid" and "rid \<noteq> []"
    and "peerId m = Some pid" and "pid \<noteq> []"
  shows "queueOf (snd (handler now path (Post (Some m)) rooms)) rid =
           messages (handleMessage now pid m (roomOrNew rooms now rid))"
  using assms by (simp add: handler_def handlePost_def truthy_def Let_def queueOf_upd)

lemma messages_pushMessage: "messages (pushMessage r m) = messages r @ [storedMessage m]"
  by (simp add: pushMessage_def)

lemma handleMessage_queue:
  "messages (handleMessage now pid m r) =
     (if messageType m \<in> {Join, Offer, Answer, IceCandidate}
      then messages r @ [storedMessage m] else messages r)"
  by (cases "messageType m") (simp_all add: handleMessage_def messages_pushMessage)

text \<open>
  C7: a POST whose type is not ping and that carries a room id and a peer id. For the
  types join, offer, answer and ice-candidate the message is appended to the queue of
  the room with an empty \<open>deliveredTo\<close> set, so the queue grows by exactly one. A leave
  only changes the membership of the room: the queue stays as it is.
\<close>

theorem post_appends_unless_leave:
  assumes "startsWith path ''/.netlify/functions/webrtc-signal''"
    and "messageType m \<noteq> Ping" and "roomId m = Some rid" and "rid \<noteq> []"
    and "peerId m = Some pid" and "pid \<noteq> []"
  shows "(messageType m \<noteq> Leave \<longrightarrow>
            queueOf (snd (handler now path (Post (Some m)) rooms)) rid
              = queueOf rooms rid @ [m\<lparr>deliveredTo := Some {||}\<rparr>]
          \<and> length (queueOf (snd (handler now path (Post (Some m)) rooms)) rid)
              = length (queueOf rooms rid) + 1)
       \<and> (messageType m = Leave \<longrightarrow>
            queueOf (snd (handler now path (Post (Some m)) rooms)) rid = queueOf rooms rid)"
proof -
  have s: "storedMessage m = m\<lparr>deliveredTo := Some {||}\<rparr>"
    by (simp add: storedMessage_def)
  show ?thesis
    using assms(2)
    by (cases "messageType m")
       (simp_all add: handler_post [OF assms] handleMessage_queue queueOf_roomOrNew s)
qed

theorem post_appends_unless_leave_witness:
  "startsWith signalPath ''/.netlify/functions/webrtc-signal''
   \<and> messageType offerAB \<noteq> Ping \<and> messageType offerAB \<noteq> Leave
   \<and> roomId offerAB = Some ''r1'' \<and> peerId offerAB = Some ''A''
   \<and> queueOf (snd (handler 5 signalPath (Post (Some offerAB)) Map.empty)) ''r1''
        = queueOf Map.empty ''r1'' @ [offerAB\<lparr>deliveredTo := Some {||}\<rparr>]
   \<and> messageType (offerAB\<lparr>messageType := Leave\<rparr>) = Leave
   \<and> queueOf (snd (handler 9 signalPath (Post (Some (offerAB\<lparr>messageType := Leave\<rparr>)))
                 (roomsWith offerAB))) ''r1''
        = queueOf (roomsWith offerAB) ''r1''"
proof -
  have a: "messageType offerAB \<noteq> Ping" "roomId offerAB = Some ''r1''" "''r1'' \<noteq> []"
    "peerId offerAB = Some ''A''" "''A'' \<noteq> []" "messageType offerAB \<noteq> Leave"
    by (simp_all add: offerAB_def)
  have b: "messageType (offerAB\<lparr>messageType := Leave\<rparr>) \<noteq> Ping"
    "roomId (offerAB\<lparr>messageType := Leave\<rparr>) = Some ''r1''"
    "peerId (offerAB\<lparr>messageType := Leave\<rparr>) = Some ''A''"
    "messageType (offerAB\<lparr>messageType := Leave\<rparr>) = Leave"
    by (simp_all add: offerAB_def)
  from post_appends_unless_leave [OF signalPath_ok a(1,2,3,4,5), of 5 Map.empty]
    post_appends_unless_leave [OF signalPath_ok b(1,2) a(3) b(3) a(5), of 9 "roomsWith offerAB"]
    signalPath_ok a b
  show ?thesis by simp
qed

text \<open>
  C7 as it is written fails for a leave: the queue of the room does not grow.
\<close>

theorem leave_is_not_queued:
  "length (queueOf (snd (handler 9 signalPath (Post (Some (offerAB\<lparr>messageType := Leave\<rparr>)))
                     (roomsWith offerAB))) ''r1'')
     \<noteq> length (queueOf (roomsWith offerAB) ''r1'') + 1"
  by (simp add: roomsWith_def handler_def handlePost_def handleMessage_def pushMessage_def
      storedMessage_def roomOrNew_def truthy_def mapDelete_def queueOf_def startsWith_def
      signalPath_def offerAB_def Let_def)

text \<open>
  C6: an offer, answer or ice-candidate that a poll has delivered to a peer other than its
  sender should be removed by the clean-up after that poll. The clean-up keeps a message
  while \<open>deliveredTo\<close> has at most one element, and the sender is never put in that set:
  after B has polled the offer that A sent to B, the offer is still in the queue.
\<close>

theorem delivered_offer_stays_queued:
  "polledMessages (fst (handler 6 signalPath (Get (Some ''r1'') (Some ''B'')) (roomsWith offerAB)))
     = [offerAB\<lparr>deliveredTo := Some {|''B''|}\<rparr>]
   \<and> queueOf (snd (handler 6 signalPath (Get (Some ''r1'') (Some ''B'')) (roomsWith offerAB))) ''r1''
     = [offerAB\<lparr>deliveredTo := Some {|''B''|}\<rparr>]"
  by (simp add: roomsWith_def handler_def handlePost_def handleGet_def handleMessage_def
      pushMessage_def storedMessage_def roomOrNew_def truthy_def queueOf_def startsWith_def
      shouldInclude_def alreadyDelivered_def markDelivered_def shouldKeep_def polledMessages_def
      signalPath_def offerAB_def Let_def fcard_finsert_if)









section \<open>Properties of the resolution workflow\<close>

lemma sessionInv_start: "sessionInv (hook (startSession cs rows))"
  by (simp add: sessionInv_def startSession_def)

lemma hook_apply:
  "hook (applyConflictResolutions m w) =
     (hook w)\<lparr>showConflictDialog := False, currentConflicts := [], currentConflictIndex := 0,
              conflictResolutions := Map.empty, resolutionHistory := []\<rparr>"
  by (simp add: applyConflictResolutions_def Let_def split: prod.splits)

lemma sessionInv_decide:
  assumes "sessionInv (hook w)"
  shows "sessionInv (hook (handleConflictResolution act w))"
proof (cases "currentConflictIndex (hook w) < length (currentConflicts (hook w))")
  case False
  then show ?thesis using assms by (simp add: handleConflictResolution_def Let_def)
next
  case True
  show ?thesis
  proof (cases "int (currentConflictIndex (hook w)) < int (length (currentConflicts (hook w))) - 1")
    case False
    then show ?thesis using True
      by (simp add: handleConflictResolution_def Let_def hook_apply sessionInv_def)
  next
    case less: True
    have "dom ((conflictResolutions (hook w))
                 (getConflictKey (currentConflicts (hook w) ! currentConflictIndex (hook w)) \<mapsto> act))
            \<subseteq> (\<lambda>i. getConflictKey (currentConflicts (hook w) ! i))
                 ` {..<Suc (currentConflictIndex (hook w))}"
      using assms by (auto simp add: sessionInv_def lessThan_Suc)
    then show ?thesis using True less assms
      by (simp add: handleConflictResolution_def Let_def sessionInv_def)
  qed
qed

lemma undo_empty: "resolutionHistory (hook w) = [] \<Longrightarrow> handleUndo w = w"
  by (simp add: handleUndo_def)

lemma last_index:
  assumes "sessionInv h" and "resolutionHistory h \<noteq> []"
  shows "Suc (index (last (resolutionHistory h))) = currentConflictIndex h"
    and "currentConflictIndex h < length (currentConflicts h)"
proof -
  from assms have m: "map index (resolutionHistory h) = [0..<currentConflictIndex h]"
    and n: "currentConflictIndex h \<noteq> 0"
    by (auto simp add: sessionInv_def)
  from assms(2) have "index (last (resolutionHistory h)) = last (map index (resolutionHistory h))"
    by (simp add: last_map)
  also have "\<dots> = currentConflictIndex h - 1"
    using n by (simp add: m last_upt)
  finally show "Suc (index (last (resolutionHistory h))) = currentConflictIndex h"
    using n by simp
  from assms(1) n show "currentConflictIndex h < length (currentConflicts h)"
    by (simp add: sessionInv_def)
qed

lemma undo_step:
  assumes "sessionInv (hook w)" and "resolutionHistory (hook w) \<noteq> []"
  shows "handleUndo w =
           w\<lparr>hook := (hook w)
              \<lparr>conflictResolutions := (conflictResolutions (hook w))
                 (getConflictKey (currentConflicts (hook w) ! index (last (resolutionHistory (hook w))))
                    := None),
               resolutionHistory := butlast (resolutionHistory (hook w)),
               currentConflictIndex := index (last (resolutionHistory (hook w)))\<rparr>\<rparr>"
proof -
  from last_index [OF assms]
  have "index (last (resolutionHistory (hook w))) < length (currentConflicts (hook w))"
    by simp
  then show ?thesis using assms(2) by (simp add: handleUndo_def Let_def)
qed

lemma sessionInv_undo:
  assumes "sessionInv (hook w)"
  shows "sessionInv (hook (handleUndo w))"
proof (cases "resolutionHistory (hook w) = []")
  case True
  then show ?thesis using assms by (simp add: undo_empty)
next
  case False
  let ?h = "hook w"
  let ?i = "index (last (resolutionHistory ?h))"
  note li = last_index [OF assms False]
  from assms have m: "map index (resolutionHistory ?h) = [0..<currentConflictIndex ?h]"
    and d: "dom (conflictResolutions ?h)
         \<subseteq> (\<lambda>i. getConflictKey (currentConflicts ?h ! i)) ` {..<currentConflictIndex ?h}"
    by (simp_all add: sessionInv_def)
  have "map index (butlast (resolutionHistory ?h)) = butlast [0..<Suc ?i]"
    using m li(1) by (simp add: map_butlast)
  then have a: "map index (butlast (resolutionHistory ?h)) = [0..<?i]"
    by simp
  have b: "?i = 0 \<or> ?i < length (currentConflicts ?h)"
    using li by simp
  have "dom (conflictResolutions ?h)
          \<subseteq> insert (getConflictKey (currentConflicts ?h ! ?i))
               ((\<lambda>i. getConflictKey (currentConflicts ?h ! i)) ` {..<?i})"
    using d li(1) [symmetric] by (simp add: lessThan_Suc)
  then have c: "dom ((conflictResolutions ?h)(getConflictKey (currentConflicts ?h ! ?i) := None))
          \<subseteq> (\<lambda>i. getConflictKey (currentConflicts ?h ! i)) ` {..<?i}"
    by auto
  show ?thesis
    using a b c by (simp add: undo_step [OF assms False] sessionInv_def)
qed

lemma sessionInv_run: "sessionInv (hook w) \<Longrightarrow> sessionInv (hook (run steps w))"
proof (induction steps arbitrary: w)
  case Nil
  then show ?case by (simp add: run_def)
next
  case (Cons s steps)
  have "sessionInv (hook (step s w))"
    using Cons.prems by (cases s) (simp_all add: sessionInv_decide sessionInv_undo)
  from Cons.IH [OF this] show ?case by (simp add: run_def)
qed

lemma run_append: "run (xs @ ys) w = run ys (run xs w)"
  by (simp add: run_def)

lemma history_decide:
  "length (resolutionHistory (hook (handleConflictResolution act w)))
     \<le> Suc (length (resolutionHistory (hook w)))"
  by (simp add: handleConflictResolution_def Let_def hook_apply)

lemma history_decides:
  "length (resolutionHistory (hook (run (map Decide acts) w)))
     \<le> length (resolutionHistory (hook w)) + length acts"
proof (induction acts arbitrary: w)
  case Nil
  show ?case by (simp add: run_def)
next
  case (Cons a acts)
  have "length (resolutionHistory (hook (run (map Decide (a # acts)) w)))
          = length (resolutionHistory (hook (run (map Decide acts) (handleConflictResolution a w))))"
    by (simp add: run_def)
  also have "\<dots> \<le> length (resolutionHistory (hook (handleConflictResolution a w))) + length acts"
    by (rule Cons.IH)
  also have "\<dots> \<le> Suc (length (resolutionHistory (hook w))) + length acts"
    using history_decide [of a w] by simp
  finally show ?case by simp
qed

lemma history_undo:
  assumes "sessionInv (hook w)"
  shows "length (resolutionHistory (hook (handleUndo w))) = length (resolutionHistory (hook w)) - 1"
proof (cases "resolutionHistory (hook w) = []")
  case True
  then show ?thesis by (simp add: undo_empty)
next
  case False
  show ?thesis by (simp add: undo_step [OF assms False])
qed

lemma history_undos:
  assumes "sessionInv (hook w)" and "length (resolutionHistory (hook w)) \<le> n"
  shows "resolutionHistory (hook (run (replicate n Undo) w)) = []"
  using assms
proof (induction n arbitrary: w)
  case 0
  then show ?case by (simp add: run_def)
next
  case (Suc n)
  have "length (resolutionHistory (hook (handleUndo w))) \<le> n"
    using Suc.prems by (simp add: history_undo)
  from Suc.IH [OF sessionInv_undo [OF Suc.prems(1)] this]
  show ?case by (simp add: run_def)
qed

lemma sessionInv_empty_history:
  assumes "sessionInv h" and "resolutionHistory h = []"
  shows "currentConflictIndex h = 0" and "conflictResolutions h = Map.empty"
proof -
  from assms have "[0..<currentConflictIndex h] = []"
    by (simp add: sessionInv_def)
  then show z: "currentConflictIndex h = 0" by simp
  from assms(1) z have "dom (conflictResolutions h) = {}"
    by (simp add: sessionInv_def)
  then show "conflictResolutions h = Map.empty" by simp
qed

text \<open>
  C9: in a session over any list of conflicts, taking N decisions one at a time and then
  calling undo N times leaves the current index at 0 and the map of resolutions empty.
  At every point of a session, undo on an empty history changes nothing; otherwise it
  drops exactly the last history entry, removes the decision of the conflict at that
  entry's index, and sets the current index to that index.
\<close>

theorem undo_round_trip:
  "currentConflictIndex
      (hook (run (map Decide acts @ replicate (length acts) Undo) (startSession cs rows))) = 0
   \<and> conflictResolutions
      (hook (run (map Decide acts @ replicate (length acts) Undo) (startSession cs rows)))
        = Map.empty
   \<and> (resolutionHistory (hook (run steps (startSession cs rows))) = [] \<longrightarrow>
        handleUndo (run steps (startSession cs rows)) = run steps (startSession cs rows))
   \<and> (resolutionHistory (hook (run steps (startSession cs rows))) \<noteq> [] \<longrightarrow>
        handleUndo (run steps (startSession cs rows)) =
          (run steps (startSession cs rows))
            \<lparr>hook := (hook (run steps (startSession cs rows)))
               \<lparr>conflictResolutions :=
                  (conflictResolutions (hook (run steps (startSession cs rows))))
                    (getConflictKey
                       (currentConflicts (hook (run steps (startSession cs rows)))
                          ! index (last (resolutionHistory (hook (run steps (startSession cs rows))))))
                     := None),
                resolutionHistory :=
                  butlast (resolutionHistory (hook (run steps (startSession cs rows)))),
                currentConflictIndex :=
                  index (last (resolutionHistory (hook (run steps (startSession cs rows)))))\<rparr>\<rparr>)"
proof -
  let ?w = "run (map Decide acts) (startSession cs rows)"
  let ?v = "run (replicate (length acts) Undo) ?w"
  have i: "sessionInv (hook ?w)"
    by (rule sessionInv_run) (rule sessionInv_start)
  have "length (resolutionHistory (hook ?w)) \<le> length acts"
    using history_decides [of acts "startSession cs rows"] by (simp add: startSession_def)
  then have e: "resolutionHistory (hook ?v) = []"
    by (rule history_undos [OF i])
  have j: "sessionInv (hook ?v)"
    by (rule sessionInv_run) (rule i)
  have r: "sessionInv (hook (run steps (startSession cs rows)))"
    by (rule sessionInv_run) (rule sessionInv_start)
  show ?thesis
    using sessionInv_empty_history [OF j e] undo_step [OF r]
    by (simp add: run_append undo_empty)
qed

theorem undo_round_trip_witness:
  "resolutionHistory
      (hook (run [Decide Replace] (startSession [sampleConflict, sampleConflict] [sampleLocal])))
     \<noteq> []
   \<and> resolutionHistory
      (hook (handleUndo
         (run [Decide Replace] (startSession [sampleConflict, sampleConflict] [sampleLocal]))))
     = []
   \<and> currentConflictIndex
      (hook (handleUndo
         (run [Decide Replace] (startSession [sampleConflict, sampleConflict] [sampleLocal]))))
     = 0
   \<and> currentConflictIndex
      (hook (run (map Decide [Replace, Skip] @ replicate (length [Replace, Skip]) Undo)
         (startSession [sampleConflict, sampleConflict] [sampleLocal])))
     = 0
   \<and> resolutionHistory (hook (run [] (startSession [] []))) = []
   \<and> handleUndo (run [] (startSession [] [])) = run [] (startSession [] [])"
proof -
  let ?w = "run [Decide Replace] (startSession [sampleConflict, sampleConflict] [sampleLocal])"
  have h: "resolutionHistory (hook ?w) = [\<lparr>index = 0, action = Replace\<rparr>]"
    by (simp add: run_def handleConflictResolution_def startSession_def Let_def)
  have e: "resolutionHistory (hook (run [] (startSession [] []))) = []"
    by (simp add: run_def startSession_def)
  from undo_round_trip [of "[Replace]" "[sampleConflict, sampleConflict]" "[sampleLocal]"
      "[Decide Replace]"] h
  have a: "resolutionHistory (hook (handleUndo ?w)) = []
           \<and> currentConflictIndex (hook (handleUndo ?w)) = 0"
    by simp
  from undo_round_trip [of "[Replace, Skip]" "[sampleConflict, sampleConflict]" "[sampleLocal]" "[]"]
  have b: "currentConflictIndex
      (hook (run (map Decide [Replace, Skip] @ replicate (length [Replace, Skip]) Undo)
         (startSession [sampleConflict, sampleConflict] [sampleLocal]))) = 0"
    by blast
  from undo_round_trip [of "[]" "[]" "[]" "[]"] e
  have c: "handleUndo (run [] (startSession [] [])) = run [] (startSession [] [])"
    by blast
  from h a b c e show ?thesis by simp
qed

section \<open>Properties of the upload\<close>

text \<open>
  C8: for an input that is not an object with an array \<open>entries\<close>, or whose array
  \<open>entries\<close> is empty, \<open>handleScoutingDataUpload\<close> in every mode shows one error toast,
  returns \<^verbatim>\<open>{hasConflicts: false}\<close>, and leaves the table as it was.
\<close>

theorem malformed_upload_rejected:
  assumes "\<not> (\<exists>props es. jsonData = JObj props \<and> map_of props ''entries'' = Some (JArr es)
                 \<and> es \<noteq> [])"
  shows "fst (handleScoutingDataUpload lc jsonData mode rows)
           = \<lparr>hasConflicts = False, hasBatchReview = None, batchReviewEntries = None,
              pendingConflicts = None, autoProcessed = None\<rparr>
       \<and> (\<exists>msg. fst (snd (handleScoutingDataUpload lc jsonData mode rows)) = [ToastError msg])
       \<and> snd (snd (handleScoutingDataUpload lc jsonData mode rows)) = rows"
proof (cases "entriesOf jsonData")
  case None
  then show ?thesis by (simp add: handleScoutingDataUpload_def plainResult_def)
next
  case (Some es)
  then obtain props where "jsonData = JObj props" and "map_of props ''entries'' = Some (JArr es)"
    by (auto simp add: entriesOf_def split: json.splits option.splits)
  with assms have "es = []" by blast
  with Some show ?thesis by (simp add: handleScoutingDataUpload_def plainResult_def)
qed

theorem malformed_upload_rejected_witness:
  "fst (handleScoutingDataUpload codeUnitCompare (JObj [(''entries'', JArr [])]) Overwrite [sampleLocal])
     = \<lparr>hasConflicts = False, hasBatchReview = None, batchReviewEntries = None,
        pendingConflicts = None, autoProcessed = None\<rparr>
   \<and> snd (snd (handleScoutingDataUpload codeUnitCompare (JObj [(''entries'', JArr [])]) Overwrite
        [sampleLocal])) = [sampleLocal]
   \<and> snd (snd (handleScoutingDataUpload codeUnitCompare (JStr ''entries'') SmartMerge
        [sampleLocal])) = [sampleLocal]"
proof -
  have a: "\<not> (\<exists>props es. JObj [(''entries'', JArr [])] = JObj props
                 \<and> map_of props ''entries'' = Some (JArr es) \<and> es \<noteq> [])"
    by simp
  have b: "\<not> (\<exists>props es. JStr ''entries'' = JObj props
                 \<and> map_of props ''entries'' = Some (JArr es) \<and> es \<noteq> [])"
    by simp
  from malformed_upload_rejected [OF a, of codeUnitCompare Overwrite "[sampleLocal]"]
    malformed_upload_rejected [OF b, of codeUnitCompare SmartMerge "[sampleLocal]"]
  show ?thesis by simp
qed

end
